theory Spec2Isabelle
  imports Complex_Main "HOL-Library.Char_ord" "HOL-Library.List_Lexorder"
    "HOL-Library.Code_Target_Nat"
begin

section \<open>Python strings, numbers and paths\<close>

text \<open>
  Python text is modelled as \<^typ>\<open>string\<close>, a list of 8-bit characters. The character
  tests below are the ones of Python's \<open>str\<close> and \<open>re\<close> restricted to ASCII: a character
  above 127 is neither a digit, a letter nor white space here.
\<close>

definition char_code :: "char \<Rightarrow> nat" where
  "char_code c = of_char c"

definition is_digit :: "char \<Rightarrow> bool" where
  "is_digit c = (48 \<le> char_code c \<and> char_code c \<le> 57)"

definition is_upper :: "char \<Rightarrow> bool" where
  "is_upper c = (65 \<le> char_code c \<and> char_code c \<le> 90)"

definition is_lower :: "char \<Rightarrow> bool" where
  "is_lower c = (97 \<le> char_code c \<and> char_code c \<le> 122)"

text \<open>\<open>\w\<close> of \<open>re\<close>: letters, digits and the underscore.\<close>

definition is_word :: "char \<Rightarrow> bool" where
  "is_word c = (is_digit c \<or> is_upper c \<or> is_lower c \<or> c = CHR ''_'')"

text \<open>\<open>\s\<close> of \<open>re\<close> on \<open>str\<close>: the characters for which \<open>str.isspace\<close> holds
  (space, 0x09 to 0x0D, 0x1C to 0x1F).\<close>

definition is_space :: "char \<Rightarrow> bool" where
  "is_space c = (c = CHR '' '' \<or> (9 \<le> char_code c \<and> char_code c \<le> 13)
                 \<or> (28 \<le> char_code c \<and> char_code c \<le> 31))"

text \<open>The white space that \<open>int()\<close> and \<open>float()\<close> strip: space and 0x09 to 0x0D.\<close>

definition is_strip_space :: "char \<Rightarrow> bool" where
  "is_strip_space c = (c = CHR '' '' \<or> (9 \<le> char_code c \<and> char_code c \<le> 13))"

definition lower_char :: "char \<Rightarrow> char" where
  "lower_char c = (if is_upper c then char_of (char_code c + 32) else c)"

text \<open>\<open>str.lower()\<close>.\<close>

definition py_lower :: "string \<Rightarrow> string" where
  "py_lower s = map lower_char s"

text \<open>\<open>s.startswith(x)\<close> and \<open>s.endswith(x)\<close>.\<close>

definition startswith :: "string \<Rightarrow> string \<Rightarrow> bool" where
  "startswith s x = (take (length x) s = x)"

definition endswith :: "string \<Rightarrow> string \<Rightarrow> bool" where
  "endswith s x = (length x \<le> length s \<and> drop (length s - length x) s = x)"

text \<open>\<open>s.replace(old, new)\<close> for a non-empty \<open>old\<close>: the occurrences are replaced from
  the left, without overlap. (Every call of the source has a constant non-empty \<open>old\<close>;
  with an empty one the model returns \<open>s\<close>.)\<close>

fun py_replace :: "string \<Rightarrow> string \<Rightarrow> string \<Rightarrow> string" where
  "py_replace old new [] = []"
| "py_replace old new (c # cs) =
     (if old \<noteq> [] \<and> startswith (c # cs) old
      then new @ py_replace old new (drop (length old - 1) cs)
      else c # py_replace old new cs)"

text \<open>\<open>s.split(sep)[0]\<close> and \<open>s.split(sep, 1)[0]\<close> for a non-empty \<open>sep\<close>: the text
  before the first occurrence of \<open>sep\<close>, all of \<open>s\<close> when there is none.\<close>

fun split_head :: "string \<Rightarrow> string \<Rightarrow> string" where
  "split_head sep [] = []"
| "split_head sep (c # cs) = (if startswith (c # cs) sep then [] else c # split_head sep cs)"

text \<open>\<open>x in s\<close> for two strings: \<open>x\<close> occurs in \<open>s\<close>.\<close>

fun contains :: "string \<Rightarrow> string \<Rightarrow> bool" where
  "contains [] x = (x = [])"
| "contains (c # cs) x = (startswith (c # cs) x \<or> contains cs x)"

text \<open>\<open>s.isdigit()\<close>.\<close>

definition py_isdigit :: "string \<Rightarrow> bool" where
  "py_isdigit s = (s \<noteq> [] \<and> list_all is_digit s)"

definition digit_val :: "char \<Rightarrow> nat" where
  "digit_val c = char_code c - 48"

definition digits_val :: "string \<Rightarrow> nat" where
  "digits_val s = foldl (\<lambda>a c. 10 * a + digit_val c) 0 s"

definition py_strip :: "string \<Rightarrow> string" where
  "py_strip s = rev (dropWhile is_strip_space (rev (dropWhile is_strip_space s)))"

text \<open>Digits with single underscores between them, as \<open>int()\<close> accepts them.\<close>

fun int_digits :: "string \<Rightarrow> bool" where
  "int_digits [] = False"
| "int_digits [c] = is_digit c"
| "int_digits (c # d # cs) =
     (is_digit c \<and> (if d = CHR ''_'' then int_digits cs else int_digits (d # cs)))"

text \<open>\<open>int(s)\<close> in base 10; \<open>None\<close> is the \<open>ValueError\<close>.\<close>

definition py_int :: "string \<Rightarrow> int option" where
  "py_int s =
     (let t = py_strip s;
          neg = (t \<noteq> [] \<and> hd t = CHR ''-'');
          body = (if t \<noteq> [] \<and> (hd t = CHR ''-'' \<or> hd t = CHR ''+'') then tl t else t)
      in if int_digits body
         then Some ((if neg then - 1 else 1) * int (digits_val (filter is_digit body)))
         else None)"

text \<open>
  \<open>float(s)\<close>; \<open>None\<close> is the \<open>ValueError\<close>. A Python float is modelled by the exact
  value of the decimal it is read from, a rational; rounding to binary64 is not modelled.
  The model reads an optional sign, digits and one decimal point. The strings that the
  source passes to \<open>float\<close> are groups of the patterns below, made of \<open>-\<close>, \<open>,\<close>, \<open>.\<close> and
  digits only, where this is all that \<open>float\<close> accepts.
\<close>

definition py_float :: "string \<Rightarrow> rat option" where
  "py_float s =
     (let t = py_strip s;
          neg = (t \<noteq> [] \<and> hd t = CHR ''-'');
          body = (if t \<noteq> [] \<and> (hd t = CHR ''-'' \<or> hd t = CHR ''+'') then tl t else t);
          ip = takeWhile is_digit body;
          rest = dropWhile is_digit body;
          sg = (if neg then - 1 else 1)
      in case rest of
           [] \<Rightarrow> if ip = [] then None else Some (sg * of_nat (digits_val ip))
         | d # fp \<Rightarrow>
             if d = CHR ''.'' \<and> list_all is_digit fp \<and> (ip \<noteq> [] \<or> fp \<noteq> [])
             then Some (sg * (of_nat (digits_val (ip @ fp)) / 10 ^ length fp))
             else None)"

text \<open>The index just after the last \<open>/\<close> of a path (0 when there is none):
  \<open>p.rfind('/') + 1\<close>.\<close>

definition after_last_slash :: "string \<Rightarrow> nat" where
  "after_last_slash p = length p - length (takeWhile (\<lambda>c. c \<noteq> CHR ''/'') (rev p))"

text \<open>\<open>os.path.basename\<close> and \<open>os.path.dirname\<close> (posixpath).\<close>

definition basename :: "string \<Rightarrow> string" where
  "basename p = drop (after_last_slash p) p"

definition dirname :: "string \<Rightarrow> string" where
  "dirname p =
     (let h = take (after_last_slash p) p
      in if h \<noteq> [] \<and> \<not> list_all (\<lambda>c. c = CHR ''/'') h
         then rev (dropWhile (\<lambda>c. c = CHR ''/'') (rev h))
         else h)"

text \<open>\<open>os.path.splitext(p)[0]\<close>: the extension starts at the last dot of the last
  component, unless that component has only dots before it.\<close>

definition splitext_root :: "string \<Rightarrow> string" where
  "splitext_root p =
     (let name = basename p;
          ext = takeWhile (\<lambda>c. c \<noteq> CHR ''.'') (rev name);
          stem = take (length name - length ext - 1) name
      in if length ext < length name \<and> \<not> list_all (\<lambda>c. c = CHR ''.'') stem
         then take (length p - length ext - 1) p
         else p)"

text \<open>\<open>pathlib\<close>'s \<open>path.suffix\<close>: from the last dot of the name, when that dot is
  neither its first nor its last character.\<close>

definition path_suffix :: "string \<Rightarrow> string" where
  "path_suffix p =
     (let name = basename p;
          ext = takeWhile (\<lambda>c. c \<noteq> CHR ''.'') (rev name)
      in if length ext < length name \<and> ext \<noteq> [] \<and> Suc (length ext) < length name
         then CHR ''.'' # rev ext
         else [])"

section \<open>Regular expressions as \<open>re\<close> matches them\<close>

text \<open>
  The patterns of the source are kept as data and run by a backtracking matcher with the
  order of alternatives of \<open>re\<close>: a greedy repetition tries one more iteration first, a
  lazy one tries to stop first, and the leftmost start position that matches wins.
\<close>

text \<open>The items of a character class \<open>[...]\<close>: a character, a range \<open>a-z\<close>,
  \<open>\d\<close>, \<open>\w\<close>, \<open>\s\<close> and \<open>\S\<close>.\<close>

datatype citem = Ch char | Rg char char | Dig | Wrd | Spc | NSpc

fun in_item :: "citem \<Rightarrow> char \<Rightarrow> bool" where
  "in_item (Ch a) c = (c = a)"
| "in_item (Rg a b) c = (char_code a \<le> char_code c \<and> char_code c \<le> char_code b)"
| "in_item Dig c = is_digit c"
| "in_item Wrd c = is_word c"
| "in_item Spc c = is_space c"
| "in_item NSpc c = (\<not> is_space c)"

definition in_cls :: "citem list \<Rightarrow> char \<Rightarrow> bool" where
  "in_cls cs c = list_ex (\<lambda>i. in_item i c) cs"

text \<open>
  \<open>Lit\<close> is a run of literal characters, \<open>Dot\<close> is \<open>.\<close> (any character but the line
  feed), \<open>Rep lo hi greedy r\<close> is \<open>r{lo,hi}\<close> (\<open>hi = None\<close>: no upper bound; not greedy:
  \<open>r{lo,hi}?\<close>), \<open>Grp name r\<close> a capturing group (an unnamed group carries its number as
  its name), \<open>Ahead r\<close> is \<open>(?=r)\<close>, \<open>Behind cs\<close> and \<open>NotBehind cs\<close> are \<open>(?<=[cs])\<close> and
  \<open>(?<![cs])\<close> on one character, \<open>WordB\<close> is \<open>\b\<close>, \<open>EndZ\<close> is \<open>\Z\<close>.
\<close>

datatype regex =
    Lit string
  | Cls "citem list"
  | Dot
  | Seq regex regex
  | Alt regex regex
  | Rep nat "nat option" bool regex
  | Grp string regex
  | Ahead regex
  | Behind "citem list"
  | NotBehind "citem list"
  | WordB
  | EndZ

text \<open>A matcher state: the text before the position, reversed; the text from the
  position on; the groups captured so far, the latest first.\<close>

type_synonym mstate = "string \<times> string \<times> (string \<times> string) list"

type_synonym cont = "mstate \<Rightarrow> mstate option"

text \<open>
  The iterations of a repetition \<open>r{lo,hi}\<close>, \<open>m\<close> being the matcher of \<open>r\<close>: greedy, one
  more iteration is tried before the rest of the pattern; lazy, after it. An iteration
  that consumes nothing is not repeated. (No repeated part of the source's patterns
  matches the empty string.)
\<close>

function rep :: "(cont \<Rightarrow> cont) \<Rightarrow> nat \<Rightarrow> nat option \<Rightarrow> bool \<Rightarrow> cont \<Rightarrow> cont" where
  "rep m lo hi g k (p, r, c) =
    (let more = (\<lambda>u :: unit.
           if hi = Some 0 then None
           else m (\<lambda>s'. if length (fst (snd s')) < length r
                         then rep m (lo - 1) (map_option (\<lambda>h. h - 1) hi) g k s'
                         else None) (p, r, c))
     in if 0 < lo then more ()
        else if g then (case more () of Some res \<Rightarrow> Some res | None \<Rightarrow> k (p, r, c))
        else (case k (p, r, c) of Some res \<Rightarrow> Some res | None \<Rightarrow> more ()))"
  by pat_completeness auto
termination
  by (relation "measure (\<lambda>(m, lo, hi, g, k, s). length (fst (snd s)))") auto

declare rep.simps [simp del]

definition at_word_boundary :: "string \<Rightarrow> string \<Rightarrow> bool" where
  "at_word_boundary p r =
     ((case p of [] \<Rightarrow> False | a # _ \<Rightarrow> is_word a) \<noteq> (case r of [] \<Rightarrow> False | b # _ \<Rightarrow> is_word b))"

primrec bt :: "regex \<Rightarrow> cont \<Rightarrow> cont" where
  "bt (Lit l) = (\<lambda>k (p, r, c).
     if startswith r l then k (rev l @ p, drop (length l) r, c) else None)"
| "bt (Cls cs) = (\<lambda>k (p, r, c).
     case r of [] \<Rightarrow> None | x # r' \<Rightarrow> if in_cls cs x then k (x # p, r', c) else None)"
| "bt Dot = (\<lambda>k (p, r, c).
     case r of [] \<Rightarrow> None | x # r' \<Rightarrow> if x \<noteq> CHR 0x0A then k (x # p, r', c) else None)"
| "bt (Seq a b) = (\<lambda>k. bt a (bt b k))"
| "bt (Alt a b) = (\<lambda>k s. case bt a k s of Some m \<Rightarrow> Some m | None \<Rightarrow> bt b k s)"
| "bt (Rep lo hi g a) = (\<lambda>k s. rep (bt a) lo hi g k s)"
| "bt (Grp n a) = (\<lambda>k (p, r, c).
     bt a (\<lambda>(p', r', c'). k (p', r', (n, rev (take (length p' - length p) p')) # c')) (p, r, c))"
| "bt (Ahead a) = (\<lambda>k s. case bt a Some s of None \<Rightarrow> None | Some _ \<Rightarrow> k s)"
| "bt (Behind cs) = (\<lambda>k (p, r, c).
     case p of [] \<Rightarrow> None | x # _ \<Rightarrow> if in_cls cs x then k (p, r, c) else None)"
| "bt (NotBehind cs) = (\<lambda>k (p, r, c).
     case p of [] \<Rightarrow> k (p, r, c) | x # _ \<Rightarrow> if in_cls cs x then None else k (p, r, c))"
| "bt WordB = (\<lambda>k (p, r, c). if at_word_boundary p r then k (p, r, c) else None)"
| "bt EndZ = (\<lambda>k (p, r, c). if r = [] then k (p, r, c) else None)"

text \<open>A match object: the text before the match, \<open>group()\<close>, the text after the match,
  and the named groups.\<close>

record rmatch =
  m_before :: string
  m_group0 :: string
  m_after :: string
  m_groups :: "(string \<times> string) list"

definition mk_match :: "string \<Rightarrow> mstate \<Rightarrow> rmatch" where
  "mk_match p st =
     (case st of (p', r', c) \<Rightarrow>
        \<lparr>m_before = rev p, m_group0 = rev (take (length p' - length p) p'),
         m_after = r', m_groups = c\<rparr>)"

text \<open>\<open>group(name)\<close> of a group that took part in the match.\<close>

definition group :: "rmatch \<Rightarrow> string \<Rightarrow> string" where
  "group m n = (case map_of (m_groups m) n of Some g \<Rightarrow> g | None \<Rightarrow> [])"

text \<open>The search from a position on: the second argument is the text before it,
  reversed.\<close>

fun search_at :: "regex \<Rightarrow> string \<Rightarrow> string \<Rightarrow> rmatch option" where
  "search_at rx p [] = map_option (mk_match p) (bt rx Some (p, [], []))"
| "search_at rx p (x # xs) =
     (case bt rx Some (p, x # xs, []) of
        Some st \<Rightarrow> Some (mk_match p st)
      | None \<Rightarrow> search_at rx (x # p) xs)"

text \<open>\<open>re.search(rx, s)\<close>.\<close>

definition re_search :: "regex \<Rightarrow> string \<Rightarrow> rmatch option" where
  "re_search rx s = search_at rx [] s"

text \<open>
  \<open>re.finditer(rx, s)\<close>: each search starts where the match before ended. The first
  argument bounds the number of matches by the length of the text: after an empty match
  the search moves on by one character.
\<close>

fun finditer_from :: "nat \<Rightarrow> regex \<Rightarrow> string \<Rightarrow> string \<Rightarrow> rmatch list" where
  "finditer_from 0 rx p r = []"
| "finditer_from (Suc n) rx p r =
     (case search_at rx p r of
        None \<Rightarrow> []
      | Some m \<Rightarrow>
          m # (if m_group0 m \<noteq> []
               then finditer_from n rx (rev (m_group0 m) @ rev (m_before m)) (m_after m)
               else (case m_after m of
                       [] \<Rightarrow> []
                     | x # xs \<Rightarrow> finditer_from n rx (x # rev (m_before m)) xs)))"

definition re_finditer :: "regex \<Rightarrow> string \<Rightarrow> rmatch list" where
  "re_finditer rx s = finditer_from (Suc (length s)) rx [] s"

text \<open>\<open>re.split(rx, s)\<close> for a pattern without groups: the pieces between the
  matches.\<close>

fun split_pieces :: "nat \<Rightarrow> rmatch list \<Rightarrow> string \<Rightarrow> string list" where
  "split_pieces start [] s = [drop start s]"
| "split_pieces start (m # ms) s =
     take (length (m_before m) - start) (drop start s)
       # split_pieces (length (m_before m) + length (m_group0 m)) ms s"

definition re_split :: "regex \<Rightarrow> string \<Rightarrow> string list" where
  "re_split rx s = split_pieces 0 (re_finditer rx s) s"

text \<open>The whole text that a matcher state lies in.\<close>

definition mtext :: "mstate \<Rightarrow> string" where
  "mtext st = rev (fst st) @ fst (snd st)"

text \<open>\<open>has_lit l r\<close>: every match of \<open>r\<close> reads the literal \<open>l\<close>.\<close>

fun has_lit :: "string \<Rightarrow> regex \<Rightarrow> bool" where
  "has_lit l (Lit l') = (l' = l)"
| "has_lit l (Seq a b) = (has_lit l a \<or> has_lit l b)"
| "has_lit l (Alt a b) = (has_lit l a \<and> has_lit l b)"
| "has_lit l (Rep lo hi g a) = (0 < lo \<and> has_lit l a)"
| "has_lit l (Grp n a) = has_lit l a"
| "has_lit l _ = False"

text \<open>\<open>passes m\<close>: the matcher \<open>m\<close> calls its continuation only on states of the
  text it was started in.\<close>

definition passes :: "(cont \<Rightarrow> cont) \<Rightarrow> bool" where
  "passes m = (\<forall>k s res. m k s = Some res \<longrightarrow> (\<exists>s'. mtext s' = mtext s \<and> k s' = Some res))"

definition seqs :: "regex list \<Rightarrow> regex" where
  "seqs rs = foldr Seq rs (Lit [])"

text \<open>\<open>r*\<close>, \<open>r+\<close>, \<open>r?\<close> and \<open>r*?\<close>.\<close>

definition star :: "regex \<Rightarrow> regex" where
  "star r = Rep 0 None True r"

definition plus :: "regex \<Rightarrow> regex" where
  "plus r = Rep 1 None True r"

definition opt :: "regex \<Rightarrow> regex" where
  "opt r = Rep 0 (Some 1) True r"

definition lazy_star :: "regex \<Rightarrow> regex" where
  "lazy_star r = Rep 0 None False r"

section \<open>Files, errors and Python values\<close>

text \<open>The exceptions that the modelled code can raise. \<open>OtherError\<close> stands for any
  other exception (the \<open>Exception\<close> raised for an EDL with several tracks, a parse error
  of the OTIO adapter).\<close>

datatype py_error =
    FileNotFoundError
  | UnicodeDecodeError
  | ValueError
  | KeyError
  | IndexError
  | UnboundLocalError
  | OtherError

text \<open>What \<open>open(path, "r")\<close> followed by \<open>f.read()\<close> gives: no such file, bytes that do
  not decode, or the decoded text.\<close>

datatype file_content = NoFile | Undecodable | Text string

text \<open>A value that is an \<open>int\<close>, a \<open>float\<close> or a \<open>str\<close>.\<close>

datatype pyval = PyInt int | PyFloat rat | PyStr string

text \<open>
  What the OTIO adapter hands over for one EDL, as far as the source reads it: the tracks
  of the timeline, the children of a track, and of a clip its name, its \<open>cdl\<close> metadata
  (the keys \<open>asc_sop\<close> and \<open>asc_sat\<close>), the names of its markers and the \<open>reel\<close> of its
  \<open>cmx_3600\<close> metadata.
\<close>

record cdl_md =
  asc_sop :: "(rat list \<times> rat list \<times> rat list) option"
  asc_sat :: "rat option"

record otio_clip =
  clip_name :: string
  clip_cdl :: "cdl_md option"
  clip_markers :: "string list"
  clip_reel :: "string option"

datatype otio_child = Clip otio_clip | NotClip

record timeline =
  tracks :: "otio_child list list"

text \<open>
  The world outside the code: the files, the OTIO adapter (\<open>otio.adapters.read_from_file\<close>,
  an external library), and the directory queries of \<open>get_color_file\<close> and \<open>get_files\<close>:
  \<open>glob_children d\<close> is \<open>glob(d + "/*")\<close>, \<open>rglob d\<close> is \<open>Path(d).glob("**/*")\<close>,
  \<open>resolve\<close> is \<open>Path.resolve\<close>, and \<open>ctime_day x\<close> is
  \<open>int(datetime.fromtimestamp(os.path.getctime(x)).strftime("%Y%m%d"))\<close>.
\<close>

record filesys =
  read_text :: "string \<Rightarrow> file_content"
  otio_read :: "string \<Rightarrow> py_error + timeline"
  glob_children :: "string \<Rightarrow> string list"
  rglob :: "string \<Rightarrow> string list"
  resolve :: "string \<Rightarrow> string"
  isdir :: "string \<Rightarrow> bool"
  isfile :: "string \<Rightarrow> bool"
  ctime_day :: "string \<Rightarrow> int"

definition open_read :: "filesys \<Rightarrow> string \<Rightarrow> py_error + string" where
  "open_read fs path =
     (case read_text fs path of
        NoFile \<Rightarrow> Inl FileNotFoundError
      | Undecodable \<Rightarrow> Inl UnicodeDecodeError
      | Text t \<Rightarrow> Inr t)"

text \<open>\<open>tuple(map(float, xs))\<close>: the first string that is no float raises.\<close>

fun floats :: "string list \<Rightarrow> py_error + rat list" where
  "floats [] = Inr []"
| "floats (x # xs) =
     (case py_float x of
        None \<Rightarrow> Inl ValueError
      | Some v \<Rightarrow> (case floats xs of Inl e \<Rightarrow> Inl e | Inr vs \<Rightarrow> Inr (v # vs)))"

section \<open>\<open>parse_cdl\<close> (api/lib.py)\<close>

definition sp1 :: regex where
  "sp1 = Rep 1 (Some 1) True (Cls [Ch (CHR '' '')])"

text \<open>The class \<open>[-,\d,.]\<close>.\<close>

definition cdl_chars :: "citem list" where
  "cdl_chars = [Ch (CHR ''-''), Ch (CHR '',''), Dig, Ch (CHR '',''), Ch (CHR ''.'')]"

definition cdl_slope_pattern :: regex where
  "cdl_slope_pattern =
     seqs [Lit ''<slope>'', Grp ''sR'' (star (Cls cdl_chars)), sp1,
           Grp ''sG'' (plus (Cls cdl_chars)), sp1,
           Grp ''sB'' (star (Cls cdl_chars)), Lit ''</slope>'']"

definition cdl_offset_pattern :: regex where
  "cdl_offset_pattern =
     seqs [Lit ''<offset>'', Grp ''oR'' (star (Cls cdl_chars)), sp1,
           Grp ''oG'' (plus (Cls cdl_chars)), sp1,
           Grp ''oB'' (star (Cls cdl_chars)), Lit ''</offset>'']"

definition cdl_power_pattern :: regex where
  "cdl_power_pattern =
     seqs [Lit ''<power>'', Grp ''pR'' (star (Cls cdl_chars)), sp1,
           Grp ''pG'' (plus (Cls cdl_chars)), sp1,
           Grp ''pB'' (star (Cls cdl_chars)), Lit ''</power>'']"

definition cdl_sat_pattern :: regex where
  "cdl_sat_pattern =
     seqs [Lit ''<saturation>'', Grp ''sat'' (plus (Cls cdl_chars)), Lit ''</saturation>'']"

text \<open>The dictionary that \<open>parse_cdl\<close> returns; \<open>None\<close> in a field is Python's \<open>None\<close>.\<close>

record cdl =
  cdl_slope :: "rat list option"
  cdl_offset :: "rat list option"
  cdl_power :: "rat list option"
  cdl_sat :: "rat option"
  cdl_file :: string

text \<open>\<open>tuple(map(float, m.groups())) if m else None\<close>, the groups in their order.\<close>

definition triple_of :: "rmatch option \<Rightarrow> string list \<Rightarrow> py_error + rat list option" where
  "triple_of mo names =
     (case mo of
        None \<Rightarrow> Inr None
      | Some m \<Rightarrow> (case floats (map (group m) names) of Inl e \<Rightarrow> Inl e | Inr vs \<Rightarrow> Inr (Some vs)))"

definition sat_of :: "rmatch option \<Rightarrow> py_error + rat option" where
  "sat_of mo =
     (case mo of
        None \<Rightarrow> Inr None
      | Some m \<Rightarrow> (case py_float (group m ''sat'') of None \<Rightarrow> Inl ValueError | Some v \<Rightarrow> Inr (Some v)))"

definition parse_cdl_text :: "string \<Rightarrow> string \<Rightarrow> py_error + cdl" where
  "parse_cdl_text path text =
     (let cdl_data = py_lower text
      in case triple_of (re_search cdl_slope_pattern cdl_data) [''sR'', ''sG'', ''sB''] of
           Inl e \<Rightarrow> Inl e
         | Inr slope \<Rightarrow>
        (case triple_of (re_search cdl_offset_pattern cdl_data) [''oR'', ''oG'', ''oB''] of
           Inl e \<Rightarrow> Inl e
         | Inr offset \<Rightarrow>
        (case triple_of (re_search cdl_power_pattern cdl_data) [''pR'', ''pG'', ''pB''] of
           Inl e \<Rightarrow> Inl e
         | Inr pow \<Rightarrow>
        (case sat_of (re_search cdl_sat_pattern cdl_data) of
           Inl e \<Rightarrow> Inl e
         | Inr sat \<Rightarrow>
             Inr \<lparr>cdl_slope = slope, cdl_offset = offset, cdl_power = pow,
                  cdl_sat = sat, cdl_file = path\<rparr>))))"

definition parse_cdl :: "filesys \<Rightarrow> string \<Rightarrow> py_error + cdl" where
  "parse_cdl fs path =
     (case open_read fs path of Inl e \<Rightarrow> Inl e | Inr text \<Rightarrow> parse_cdl_text path text)"

section \<open>\<open>regex_parse_edl_events\<close> (api/lib.py)\<close>

definition LF :: char where "LF = CHR 0x0A"

definition CR :: char where "CR = CHR 0x0D"

definition edit_pattern :: regex where
  "edit_pattern =
     seqs [Behind [Ch LF, Ch CR],
           Grp ''edit'' (seqs [plus (Cls [Dig]), plus (Cls [Spc]), lazy_star (Cls [Spc, NSpc])]),
           Ahead (Alt (Grp ''2'' (seqs [plus (Cls [Ch LF, Ch CR]), plus (Cls [Dig])])) EndZ)]"

text \<open>\<open>[-]?\d+[.]\d{4,6}\<close>.\<close>

definition sop_num :: regex where
  "sop_num =
     seqs [opt (Cls [Ch (CHR ''-'')]), plus (Cls [Dig]), Cls [Ch (CHR ''.'')],
           Rep 4 (Some 6) True (Cls [Dig])]"

text \<open>\<open>[(]\s?(?P<a>num)\s+(?P<b>num)\s+(?P<c>num)\s?[)]\s?\<close>.\<close>

definition sop_triple :: "string \<Rightarrow> string \<Rightarrow> string \<Rightarrow> regex" where
  "sop_triple a b c =
     seqs [Cls [Ch (CHR ''('')], opt (Cls [Spc]), Grp a sop_num, plus (Cls [Spc]),
           Grp b sop_num, plus (Cls [Spc]), Grp c sop_num, opt (Cls [Spc]),
           Cls [Ch (CHR '')'')], opt (Cls [Spc])]"

definition sop_pattern :: regex where
  "sop_pattern =
     seqs [Cls [Ch (CHR ''*'')], opt (Cls [Spc]), Lit ''ASC'', Cls [Ch (CHR ''_'')], Lit ''SOP'',
           plus (Cls [Spc]), sop_triple ''sR'' ''sG'' ''sB'', sop_triple ''oR'' ''oG'' ''oB'',
           sop_triple ''pR'' ''pG'' ''pB'']"

definition edl_sat_pattern :: regex where
  "edl_sat_pattern =
     seqs [Cls [Ch (CHR ''*'')], opt (Cls [Spc]), Lit ''ASC_SAT'', plus (Cls [Spc]),
           Grp ''sat'' (seqs [plus (Cls [Dig]), star (Cls [Ch (CHR ''.'')]), star (Cls [Dig])])]"

definition tape_pattern :: regex where
  "tape_pattern =
     seqs [plus (Cls [Dig]), star (Cls [Spc]), Grp ''source'' (star (Cls [NSpc])),
           Ahead (star (Cls [Spc]))]"

definition clip_name_pattern :: regex where
  "clip_name_pattern =
     seqs [Cls [Ch (CHR ''*'')], opt (Cls [Spc]), Lit ''FROM'', star (Cls [Ch (CHR '' '')]),
           Lit ''CLIP'', star (Cls [Ch (CHR '' '')]), Lit ''NAME:'', star (Cls [Spc]),
           Grp ''clip_name'' (plus Dot)]"

text \<open>\<open>[\w]{3,4}\<close>.\<close>

definition w34 :: regex where
  "w34 = Rep 3 (Some 4) True (Cls [Wrd])"

definition loc_pattern :: regex where
  "loc_pattern =
     seqs [Cls [Ch (CHR ''*'')], opt (Cls [Spc]), Lit ''LOC:'', opt (Cls [Spc]), plus Dot, WordB,
           NotBehind [Ch (CHR ''_'')],
           Grp ''LOC''
             (seqs [w34, Lit ''_'',
                    Rep 1 (Some 2) True (Grp ''2'' (seqs [Behind [Ch (CHR ''_'')], w34, Lit ''_''])),
                    w34, NotBehind [Ch (CHR ''_'')],
                    Rep 0 None True (Grp ''3'' (seqs [Lit ''_'', Rep 1 None True (Cls [Wrd])]))]),
           WordB]"

text \<open>The colour keys of an event (\<open>slope\<close>, \<open>offset\<close>, \<open>power\<close>, \<open>sat\<close>), which the
  parsers set together or not at all.\<close>

record sops =
  col_slope :: "rat list"
  col_offset :: "rat list"
  col_power :: "rat list"
  col_sat :: pyval

text \<open>An entry of \<open>edl["events"]\<close>; \<open>ev_color = None\<close> is an entry without the colour
  keys.\<close>

record edl_event =
  ev_tape :: string
  ev_clip_name :: string
  ev_LOC :: string
  ev_color :: "sops option"

text \<open>
  The dictionary that the parsers return. \<open>events\<close> keeps the insertion order of the
  Python dictionary. The regex parser keys an event by \<open>str(int(...))\<close> and the OTIO parser
  by the \<open>int\<close> itself; both keys are represented by the integer.
\<close>

record edl =
  events :: "(int \<times> edl_event) list"
  first_entry :: int
  last_entry :: int

text \<open>\<open>d[k] = v\<close>: an existing key keeps its place.\<close>

fun dict_set :: "'k \<Rightarrow> 'v \<Rightarrow> ('k \<times> 'v) list \<Rightarrow> ('k \<times> 'v) list" where
  "dict_set k v [] = [(k, v)]"
| "dict_set k v (p # ps) = (if fst p = k then (k, v) # ps else p # dict_set k v ps)"

text \<open>\<open>int(edit_value.split(" ", 1)[0])\<close>.\<close>

definition entry_of :: "string \<Rightarrow> py_error + int" where
  "entry_of edit_value =
     (case py_int (split_head '' '' edit_value) of None \<Rightarrow> Inl ValueError | Some n \<Rightarrow> Inr n)"

text \<open>The slope, offset and power of an edit, when \<open>sop_pattern\<close> is found in it.\<close>

definition sop_of :: "string \<Rightarrow> py_error + (rat list \<times> rat list \<times> rat list) option" where
  "sop_of edit_value =
     (case re_search sop_pattern edit_value of
        None \<Rightarrow> Inr None
      | Some m \<Rightarrow>
          (case floats (map (group m) [''sR'', ''sG'', ''sB'']) of
             Inl e \<Rightarrow> Inl e
           | Inr s \<Rightarrow>
          (case floats (map (group m) [''oR'', ''oG'', ''oB'']) of
             Inl e \<Rightarrow> Inl e
           | Inr off \<Rightarrow>
          (case floats (map (group m) [''pR'', ''pG'', ''pB'']) of
             Inl e \<Rightarrow> Inl e
           | Inr p \<Rightarrow> Inr (Some (s, off, p))))))"

definition group_or_empty :: "regex \<Rightarrow> string \<Rightarrow> string \<Rightarrow> string" where
  "group_or_empty rx n edit_value =
     (case re_search rx edit_value of Some m \<Rightarrow> group m n | None \<Rightarrow> [])"

text \<open>\<open>sat_match.group("sat") if sat_match else 1\<close>: the matched text itself, not
  converted, or the integer 1.\<close>

definition edl_sat_of :: "string \<Rightarrow> pyval" where
  "edl_sat_of edit_value =
     (case re_search edl_sat_pattern edit_value of
        Some m \<Rightarrow> PyStr (group m ''sat'')
      | None \<Rightarrow> PyInt 1)"

text \<open>The body of the loop for one edit: its entry number and the event read from it.\<close>

definition parse_edit :: "string \<Rightarrow> py_error + (int \<times> edl_event)" where
  "parse_edit edit_value =
     (case sop_of edit_value of
        Inl e \<Rightarrow> Inl e
      | Inr sop \<Rightarrow>
     (case entry_of edit_value of
        Inl e \<Rightarrow> Inl e
      | Inr entry \<Rightarrow>
          Inr (entry,
               \<lparr>ev_tape = group_or_empty tape_pattern ''source'' edit_value,
                ev_clip_name = group_or_empty clip_name_pattern ''clip_name'' edit_value,
                ev_LOC = group_or_empty loc_pattern ''LOC'' edit_value,
                ev_color =
                  (case sop of
                     None \<Rightarrow> None
                   | Some (s, off, p) \<Rightarrow>
                       Some \<lparr>col_slope = s, col_offset = off, col_power = p,
                             col_sat = edl_sat_of edit_value\<rparr>)\<rparr>)))"

text \<open>The loop over the edits: an event with colour is always stored, one without only
  when \<open>color_edits_only\<close> is off.\<close>

fun edits_loop :: "bool \<Rightarrow> string list \<Rightarrow> (int \<times> edl_event) list
    \<Rightarrow> py_error + (int \<times> edl_event) list" where
  "edits_loop coe [] evs = Inr evs"
| "edits_loop coe (edit_value # rest) evs =
     (case parse_edit edit_value of
        Inl e \<Rightarrow> Inl e
      | Inr (entry, ev) \<Rightarrow>
          edits_loop coe rest
            (if ev_color ev \<noteq> None \<or> \<not> coe then dict_set entry ev evs else evs))"

text \<open>The edits of the text: \<open>edit_match.group("edit")\<close> for each match of
  \<open>re.finditer(edit_pattern, edl_data)\<close>.\<close>

definition edits_of :: "string \<Rightarrow> string list" where
  "edits_of edl_data = map (\<lambda>m. group m ''edit'') (re_finditer edit_pattern edl_data)"

text \<open>After the loop \<open>edit_value\<close> is the last edit; with no edit at all the name is
  unbound.\<close>

definition regex_parse_edl_text :: "string \<Rightarrow> bool \<Rightarrow> py_error + edl" where
  "regex_parse_edl_text edl_data color_edits_only =
     (case (case re_search edit_pattern edl_data of
              None \<Rightarrow> Inr 1
            | Some m \<Rightarrow> entry_of (m_group0 m)) of
        Inl e \<Rightarrow> Inl e
      | Inr first \<Rightarrow>
     (case edits_loop color_edits_only (edits_of edl_data) [] of
        Inl e \<Rightarrow> Inl e
      | Inr evs \<Rightarrow>
     (case (if edits_of edl_data = [] then Inl UnboundLocalError
            else entry_of (last (edits_of edl_data))) of
        Inl e \<Rightarrow> Inl e
      | Inr lst \<Rightarrow> Inr \<lparr>events = evs, first_entry = first, last_entry = lst\<rparr>)))"

definition regex_parse_edl_events :: "filesys \<Rightarrow> string \<Rightarrow> bool \<Rightarrow> py_error + edl" where
  "regex_parse_edl_events fs path color_edits_only =
     (case open_read fs path of
        Inl e \<Rightarrow> Inl e
      | Inr edl_data \<Rightarrow> regex_parse_edl_text edl_data color_edits_only)"

section \<open>\<open>otio_parse_edl_events\<close> and \<open>parse_edl_events\<close> (api/lib.py)\<close>

text \<open>\<open>[a-zA-Z0-9]\<close>.\<close>

definition alnum :: "citem list" where
  "alnum = [Rg (CHR ''a'') (CHR ''z''), Rg (CHR ''A'') (CHR ''Z''), Rg (CHR ''0'') (CHR ''9'')]"

definition a34 :: regex where
  "a34 = Rep 3 (Some 4) True (Cls alnum)"

text \<open>
  \<open>shot_pattern\<close> is written as a raw string literal followed by a second literal that is
  not raw. The \<open>\b\<close> that ends the second literal is therefore the backspace character
  (0x08), which the pattern then asks for literally after the token.
\<close>

definition shot_pattern :: regex where
  "shot_pattern =
     seqs [NotBehind [Ch (CHR ''_'')],
           Grp ''LOC''
             (seqs [a34, Lit ''_'',
                    Rep 1 (Some 2) True (Grp ''2'' (seqs [Behind [Ch (CHR ''_'')], a34, Lit ''_''])),
                    a34, NotBehind [Ch (CHR ''_'')],
                    Rep 0 None True (Grp ''3'' (seqs [Lit ''_'', Rep 1 None True (Cls alnum)]))]),
           Lit [CHR 0x08]]"

text \<open>\<open>sep.join(xs)\<close>.\<close>

fun py_join :: "string \<Rightarrow> string list \<Rightarrow> string" where
  "py_join sep [] = []"
| "py_join sep [x] = x"
| "py_join sep (x # y # ys) = x @ sep @ py_join sep (y # ys)"

text \<open>\<open>if cdl:\<close> for \<open>cdl = clip.metadata.get("cdl")\<close>: a dictionary with a key.\<close>

definition cdl_truthy :: "cdl_md option \<Rightarrow> bool" where
  "cdl_truthy c = (case c of None \<Rightarrow> False | Some md \<Rightarrow> asc_sop md \<noteq> None \<or> asc_sat md \<noteq> None)"

text \<open>\<open>cdl.get("asc_sat") or 1.0\<close>: a missing value and the value 0.0 give 1.0.\<close>

definition otio_sat :: "cdl_md \<Rightarrow> rat" where
  "otio_sat md = (case asc_sat md of None \<Rightarrow> 1 | Some v \<Rightarrow> if v = 0 then 1 else v)"

text \<open>The location of a clip: the token found in its marker names, joined after a
  blank; empty without markers.\<close>

definition clip_loc :: "otio_clip \<Rightarrow> string" where
  "clip_loc c =
     (if clip_markers c \<noteq> []
      then group_or_empty shot_pattern ''LOC'' (py_join '' '' ('' '' # clip_markers c))
      else [])"

definition clip_event :: "otio_clip \<Rightarrow> sops option \<Rightarrow> edl_event" where
  "clip_event c col =
     \<lparr>ev_tape = (case clip_reel c of Some r \<Rightarrow> r | None \<Rightarrow> []),
      ev_clip_name = clip_name c,
      ev_LOC = clip_loc c,
      ev_color = col\<rparr>"

text \<open>The colour keys that \<open>entry.update\<close> adds for a \<open>cdl\<close> dictionary:
  \<open>cdl["asc_sop"]\<close> raises when the key is missing.\<close>

definition clip_sops :: "cdl_md \<Rightarrow> py_error + sops" where
  "clip_sops md =
     (case asc_sop md of
        None \<Rightarrow> Inl KeyError
      | Some (s, off, p) \<Rightarrow>
          Inr \<lparr>col_slope = s, col_offset = off, col_power = p, col_sat = PyFloat (otio_sat md)\<rparr>)"

text \<open>The loop over the children of the track; \<open>n\<close> is \<open>entry_count\<close>.\<close>

fun clips_loop :: "bool \<Rightarrow> otio_child list \<Rightarrow> int \<Rightarrow> (int \<times> edl_event) list
    \<Rightarrow> py_error + (int \<times> (int \<times> edl_event) list)" where
  "clips_loop coe [] n evs = Inr (n, evs)"
| "clips_loop coe (NotClip # rest) n evs = clips_loop coe rest n evs"
| "clips_loop coe (Clip c # rest) n evs =
     (if cdl_truthy (clip_cdl c)
      then (case clip_sops (the (clip_cdl c)) of
              Inl e \<Rightarrow> Inl e
            | Inr col \<Rightarrow>
                clips_loop coe rest (n + 1) (dict_set (n + 1) (clip_event c (Some col)) evs))
      else if coe then clips_loop coe rest (n + 1) evs
      else clips_loop coe rest (n + 1) (dict_set (n + 1) (clip_event c None) evs))"

definition otio_parse_edl_events :: "filesys \<Rightarrow> string \<Rightarrow> bool \<Rightarrow> py_error + edl" where
  "otio_parse_edl_events fs path color_edits_only =
     (case otio_read fs path of
        Inl e \<Rightarrow> Inl e
      | Inr tml \<Rightarrow>
          if 1 < length (tracks tml) then Inl OtherError
          else (case tracks tml of
                  [] \<Rightarrow> Inl IndexError
                | tr # _ \<Rightarrow>
                    (case clips_loop color_edits_only tr 0 [] of
                       Inl e \<Rightarrow> Inl e
                     | Inr (n, evs) \<Rightarrow> Inr \<lparr>events = evs, first_entry = 1, last_entry = n\<rparr>)))"

text \<open>\<open>parse_edl_events\<close>; the result \<open>None\<close> is the \<open>False\<close> that it returns.\<close>

definition parse_edl_events :: "filesys \<Rightarrow> string \<Rightarrow> bool \<Rightarrow> edl option" where
  "parse_edl_events fs color_file color_edits_only =
     (case otio_parse_edl_events fs color_file color_edits_only of
        Inr e \<Rightarrow> Some e
      | Inl err \<Rightarrow>
          if err = UnicodeDecodeError then None
          else (case regex_parse_edl_events fs color_file color_edits_only of
                  Inr e \<Rightarrow> Some e
                | Inl _ \<Rightarrow> None))"

section \<open>The colour file matcher (plugins/publish/collect\_color\_file.py)\<close>

definition LUTS_3D :: "string list" where
  "LUTS_3D = [''cube'', ''3dl'', ''csp'', ''lut'']"

definition LUTS_2D :: "string list" where
  "LUTS_2D = [''ccc'', ''cc'', ''cdl'']"

definition COLOR_FILE_EXTS :: "string list" where
  "COLOR_FILE_EXTS = LUTS_2D @ LUTS_3D @ [''edl'']"

text \<open>The \<open>cdl\<close> of a match: the dictionary of \<open>parse_cdl\<close> for a colour file, the colour
  keys of the event for an EDL.\<close>

datatype grade = FileGrade cdl | EventGrade sops

type_synonym cmatch = "nat \<times> grade \<times> string"

text \<open>The name without a colour suffix: when it ends with \<open>_ccc\<close>, \<open>_cc\<close> or \<open>_cdl\<close>,
  every occurrence of the three is removed.\<close>

definition no_color :: "string \<Rightarrow> string" where
  "no_color n =
     (if endswith n ''_ccc'' \<or> endswith n ''_cc'' \<or> endswith n ''_cdl''
      then py_replace ''_cdl'' [] (py_replace ''_cc'' [] (py_replace ''_ccc'' [] n))
      else n)"

text \<open>The name match priority of a colour file that is no EDL; \<open>source_name\<close> is already
  in lower case here, \<open>item_name\<close> is as the caller gave it.\<close>

definition name_priority :: "string \<Rightarrow> string \<Rightarrow> string \<Rightarrow> nat option" where
  "name_priority item_name source_name color_file =
     (let color_file_name = py_lower (splitext_root (basename color_file))
      in if source_name = color_file_name then Some 0
         else if item_name = color_file_name then Some 8
         else if no_color source_name = no_color color_file_name then Some 4
         else None)"

definition type_priority :: "string \<Rightarrow> nat" where
  "type_priority color_ext =
     (if color_ext = ''cc'' then 0
      else if color_ext = ''ccc'' then 1
      else if color_ext = ''cdl'' then 3
      else 0)"

text \<open>The matches that one event of an EDL adds. (An event without the colour keys
  would raise at \<open>edl_event["slope"]\<close>.)\<close>

definition event_matches :: "string \<Rightarrow> string \<Rightarrow> string \<Rightarrow> edl_event \<Rightarrow> py_error + cmatch list" where
  "event_matches item_name source_name color_file ev =
     (case ev_color ev of
        None \<Rightarrow> Inl KeyError
      | Some col \<Rightarrow>
          (let loc_name = py_lower (ev_LOC ev)
           in if source_name = loc_name then Inr [(2, EventGrade col, color_file)]
              else if item_name = loc_name then Inr [(10, EventGrade col, color_file)]
              else Inr []))"

text \<open>A loop that appends the matches of each element and stops at the first
  exception.\<close>

fun collect :: "('a \<Rightarrow> py_error + cmatch list) \<Rightarrow> 'a list \<Rightarrow> py_error + cmatch list" where
  "collect f [] = Inr []"
| "collect f (x # xs) =
     (case f x of
        Inl e \<Rightarrow> Inl e
      | Inr ms \<Rightarrow> (case collect f xs of Inl e \<Rightarrow> Inl e | Inr ms' \<Rightarrow> Inr (ms @ ms')))"

text \<open>The body of the inner loop: the matches that one file adds.\<close>

definition file_matches :: "filesys \<Rightarrow> string \<Rightarrow> string \<Rightarrow> string \<Rightarrow> string
    \<Rightarrow> py_error + cmatch list" where
  "file_matches fs item_name source_name color_ext color_file =
     (if color_ext \<noteq> ''edl''
      then (case name_priority item_name source_name color_file of
              None \<Rightarrow> Inr []
            | Some priority \<Rightarrow>
                (case parse_cdl fs color_file of
                   Inl e \<Rightarrow> Inl e
                 | Inr c \<Rightarrow> Inr [(priority + type_priority color_ext, FileGrade c, color_file)]))
      else (case parse_edl_events fs color_file True of
              None \<Rightarrow> Inr []
            | Some edits \<Rightarrow>
                collect (event_matches item_name source_name color_file) (map snd (events edits))))"

text \<open>The body of the outer loop: the matches of one extension. \<open>color_files\<close> is the
  dictionary from an extension to its list of paths.\<close>

definition ext_matches :: "filesys \<Rightarrow> (string \<rightharpoonup> string list) \<Rightarrow> string \<Rightarrow> string \<Rightarrow> string
    \<Rightarrow> py_error + cmatch list" where
  "ext_matches fs color_files item_name source_name color_ext =
     (case color_files color_ext of
        None \<Rightarrow> Inr []
      | Some ext_color_files \<Rightarrow>
          collect (file_matches fs item_name source_name color_ext) ext_color_files)"

text \<open>The list \<open>matches\<close> at the end of the loops.\<close>

definition all_matches :: "filesys \<Rightarrow> (string \<rightharpoonup> string list) \<Rightarrow> string \<Rightarrow> string
    \<Rightarrow> py_error + cmatch list" where
  "all_matches fs color_files item_name source_name =
     collect (ext_matches fs color_files item_name (py_lower source_name)) COLOR_FILE_EXTS"

text \<open>\<open>priority_color_file\<close>: \<open>sorted(matches, key=lambda x: x[0])[0]\<close>, a stable sort;
  the result \<open>None\<close> is the triple \<open>(None, None, None)\<close>.\<close>

definition priority_color_file :: "filesys \<Rightarrow> (string \<rightharpoonup> string list) \<Rightarrow> string \<Rightarrow> string
    \<Rightarrow> py_error + cmatch option" where
  "priority_color_file fs color_files item_name source_name =
     (case all_matches fs color_files item_name source_name of
        Inl e \<Rightarrow> Inl e
      | Inr matches \<Rightarrow>
          if matches \<noteq> [] then Inr (Some (hd (sort_key fst matches))) else Inr None)"

text \<open>
  \<open>get_files\<close>: \<open>files.setdefault(ext, [p]).append(p)\<close> for each path whose suffix is one
  of the filters, \<open>p\<close> being the resolved path; the first path of an extension is
  therefore entered twice.
\<close>

fun get_files_loop :: "filesys \<Rightarrow> string list \<Rightarrow> string list \<Rightarrow> (string \<rightharpoonup> string list)
    \<Rightarrow> (string \<rightharpoonup> string list)" where
  "get_files_loop fs filters [] files = files"
| "get_files_loop fs filters (path # rest) files =
     get_files_loop fs filters rest
       (if path_suffix path \<in> set (map (\<lambda>f. CHR ''.'' # f) filters)
        then (let ext = py_replace ''.'' [] (path_suffix path)
              in files(ext \<mapsto> (case files ext of
                                  None \<Rightarrow> [resolve fs path]
                                | Some ps \<Rightarrow> ps) @ [resolve fs path]))
        else files)"

definition get_files :: "filesys \<Rightarrow> string \<Rightarrow> string list \<Rightarrow> (string \<rightharpoonup> string list)" where
  "get_files fs package_path filters = get_files_loop fs filters (rglob fs package_path) Map.empty"

text \<open>\<open>"/incoming/\d+/"\<close>.\<close>

definition incoming_pattern :: regex where
  "incoming_pattern = seqs [Lit ''/incoming/'', plus (Cls [Dig]), Lit ''/'']"

text \<open>The sort key of a package directory: its name as an integer when it is made of
  digits, the day of its creation time otherwise.\<close>

definition package_key :: "filesys \<Rightarrow> string \<Rightarrow> int" where
  "package_key fs x =
     (if py_isdigit (basename x) then int (digits_val (basename x)) else ctime_day fs x)"

text \<open>\<open>if color_file:\<close> on the third component of the result.\<close>

definition has_color_file :: "cmatch option \<Rightarrow> bool" where
  "has_color_file r = (case r of None \<Rightarrow> False | Some (_, _, color_file) \<Rightarrow> color_file \<noteq> [])"

text \<open>The loop over the package directories: it stops at the first one with a match
  and returns the result of the last directory it looked at.\<close>

fun scan_packages :: "filesys \<Rightarrow> string \<Rightarrow> string \<Rightarrow> string list \<Rightarrow> py_error + cmatch option" where
  "scan_packages fs item_name source_name [] = Inr None"
| "scan_packages fs item_name source_name (path # rest) =
     (case priority_color_file fs (get_files fs path COLOR_FILE_EXTS) item_name source_name of
        Inl e \<Rightarrow> Inl e
      | Inr r \<Rightarrow>
          if has_color_file r \<or> rest = [] then Inr r
          else scan_packages fs item_name source_name rest)"

text \<open>The names that \<open>get_color_file\<close> computes from the source path: \<open>package_path\<close>
  and \<open>incoming_path\<close>; \<open>None\<close> when the path has no \<open>/incoming/<digits>/\<close> part. An empty
  package name makes \<open>source_path.split(package_name)\<close> raise.\<close>

definition package_paths :: "string \<Rightarrow> py_error + (string \<times> string) option" where
  "package_paths source_path =
     (let incoming_split = re_split incoming_pattern source_path
      in if length incoming_split = 1 then Inr None
         else (let package_name = split_head ''/'' (incoming_split ! 1)
               in if package_name = [] then Inl ValueError
                  else Inr (Some (split_head package_name source_path @ package_name,
                                  dirname (split_head (CHR ''/'' # package_name) source_path)))))"

text \<open>The list \<open>sorted_incoming\<close> that the loop of \<open>get_color_file\<close> runs over.\<close>

definition sorted_incoming :: "filesys \<Rightarrow> string \<Rightarrow> string \<Rightarrow> string list" where
  "sorted_incoming fs package_path incoming_path =
     (let incoming_packages = filter (isdir fs) (sort (glob_children fs incoming_path));
          sorted_packages = sort_key (package_key fs) incoming_packages
      in if isfile fs package_path
         then dirname package_path
                # (if dirname package_path \<in> set incoming_packages
                   then remove1 (dirname package_path) sorted_packages
                   else sorted_packages)
         else sorted_packages)"

definition get_color_file :: "filesys \<Rightarrow> string \<Rightarrow> string \<Rightarrow> string \<Rightarrow> py_error + cmatch option" where
  "get_color_file fs source_path item_name source_name =
     (case package_paths source_path of
        Inl e \<Rightarrow> Inl e
      | Inr None \<Rightarrow> Inr None
      | Inr (Some (package_path, incoming_path)) \<Rightarrow>
          scan_packages fs item_name source_name (sorted_incoming fs package_path incoming_path))"

section \<open>Example inputs\<close>

text \<open>A world with no files and an OTIO adapter that fails on every path.\<close>

definition no_fs :: filesys where
  "no_fs =
     \<lparr>read_text = (\<lambda>p. NoFile), otio_read = (\<lambda>p. Inl OtherError),
      glob_children = (\<lambda>d. []), rglob = (\<lambda>d. []), resolve = (\<lambda>p. p),
      isdir = (\<lambda>p. False), isfile = (\<lambda>p. False), ctime_day = (\<lambda>p. 0)\<rparr>"

text \<open>\<open>winner r\<close> is the priority and the path of the result \<open>r\<close> of the matcher.\<close>

definition winner :: "py_error + cmatch option \<Rightarrow> (nat \<times> string) option" where
  "winner r = (case r of Inr (Some (p, g, f)) \<Rightarrow> Some (p, f) | _ \<Rightarrow> None)"

text \<open>The priorities and the paths of the matches, in the order of the list.\<close>

definition ranking :: "py_error + cmatch list \<Rightarrow> (nat \<times> string) list" where
  "ranking r = (case r of Inr ms \<Rightarrow> map (\<lambda>(p, g, f). (p, f)) ms | Inl _ \<Rightarrow> [])"

definition sop_text :: string where
  "sop_text = ''<slope>1 1 1</slope><offset>0 0 0</offset><power>1 1 1</power>''"

text \<open>The candidates of the priority example: \<open>shotA.cc\<close>, \<open>shotA.ccc\<close> and
  \<open>shot01.cdl\<close>.\<close>

definition c1_fs :: filesys where
  "c1_fs = no_fs\<lparr>read_text :=
     (\<lambda>p. if p = ''shotA.cc'' \<or> p = ''shotA.ccc'' \<or> p = ''shot01.cdl'' then Text sop_text else NoFile)\<rparr>"

definition c1_files :: "string \<rightharpoonup> string list" where
  "c1_files = [''cc'' \<mapsto> [''shotA.cc''], ''ccc'' \<mapsto> [''shotA.ccc''], ''cdl'' \<mapsto> [''shot01.cdl'']]"

text \<open>A colour file with a slope and nothing else.\<close>

definition c2_text :: string where
  "c2_text = ''<Slope>1.01 1.0 0.99</Slope>''"

definition c2_fs :: filesys where
  "c2_fs = no_fs\<lparr>read_text := (\<lambda>p. if p = ''grade.cc'' then Text c2_text else NoFile)\<rparr>"

definition c2_cdl :: cdl where
  "c2_cdl = \<lparr>cdl_slope = Some [101 / 100, 1, 99 / 100], cdl_offset = None, cdl_power = None,
             cdl_sat = None, cdl_file = ''grade.cc''\<rparr>"

text \<open>A colour file with slope, offset and power and no saturation; an edit with an
  \<open>ASC_SOP\<close> comment and no \<open>ASC_SAT\<close> comment; the \<open>cdl\<close> metadata of a clip with
  \<open>asc_sop\<close> and no \<open>asc_sat\<close>.\<close>

definition c3_fs :: filesys where
  "c3_fs = no_fs\<lparr>read_text := (\<lambda>p. if p = ''grade.cdl'' then Text sop_text else NoFile)\<rparr>"

definition c3_cdl :: cdl where
  "c3_cdl = \<lparr>cdl_slope = Some [1, 1, 1], cdl_offset = Some [0, 0, 0], cdl_power = Some [1, 1, 1],
             cdl_sat = None, cdl_file = ''grade.cdl''\<rparr>"

definition c3_edit :: string where
  "c3_edit = ''001  AX V C 00:00:00:00 00:00:01:00'' @ [LF]
     @ ''* ASC_SOP (1.0000 1.0000 1.0000)(0.0000 0.0000 0.0000)(1.0000 1.0000 1.0000)''"

definition c3_sops :: "pyval \<Rightarrow> sops" where
  "c3_sops v = \<lparr>col_slope = [1, 1, 1], col_offset = [0, 0, 0], col_power = [1, 1, 1], col_sat = v\<rparr>"

definition c3_event :: edl_event where
  "c3_event = \<lparr>ev_tape = ''AX'', ev_clip_name = [], ev_LOC = [], ev_color = Some (c3_sops (PyInt 1))\<rparr>"

definition c3_md :: cdl_md where
  "c3_md = \<lparr>asc_sop = Some ([1, 1, 1], [0, 0, 0], [1, 1, 1]), asc_sat = None\<rparr>"

text \<open>The token that the regex parser reads from the \<open>LOC\<close> comment of an edit, and the
  one that the OTIO parser reads from a clip with one marker.\<close>

definition loc_of :: "string \<Rightarrow> string" where
  "loc_of token = group_or_empty loc_pattern ''LOC'' (''* LOC: 01:00:00:00 RED '' @ token)"

definition shot_of :: "string \<Rightarrow> string" where
  "shot_of marker =
     clip_loc \<lparr>clip_name = [], clip_cdl = None, clip_markers = [marker], clip_reel = None\<rparr>"

text \<open>
  Two dated directories under \<open>/proj/show/incoming\<close>, each with a colour file named after
  the source; the source media lies in a package of the later one.
\<close>

definition c5_old :: string where
  "c5_old = ''/proj/show/incoming/20240101''"

definition c5_new :: string where
  "c5_new = ''/proj/show/incoming/20240102''"

definition c5_source :: string where
  "c5_source = ''/proj/show/incoming/20240102/pkg/shot.mov''"

definition c5_fs :: filesys where
  "c5_fs = no_fs
     \<lparr>read_text := (\<lambda>p. if p = c5_old @ ''/pkg/shot.cc'' \<or> p = c5_new @ ''/pkg/shot.cc''
                          then Text sop_text else NoFile),
      glob_children := (\<lambda>d. if d = ''/proj/show/incoming'' then [c5_new, c5_old] else []),
      rglob := (\<lambda>d. if d = c5_old then [c5_old @ ''/pkg'', c5_old @ ''/pkg/shot.cc'']
                     else if d = c5_new
                     then [c5_new @ ''/pkg'', c5_new @ ''/pkg/shot.cc'', c5_new @ ''/pkg/shot.mov'']
                     else []),
      isdir := (\<lambda>p. p = c5_old \<or> p = c5_new \<or> p = c5_old @ ''/pkg'' \<or> p = c5_new @ ''/pkg'')\<rparr>"

definition c5_cdl :: cdl where
  "c5_cdl = \<lparr>cdl_slope = Some [1, 1, 1], cdl_offset = Some [0, 0, 0], cdl_power = Some [1, 1, 1],
             cdl_sat = None, cdl_file = c5_old @ ''/pkg/shot.cc''\<rparr>"

text \<open>The same directories with the source media lying directly in the later one, so that
  the package path is a file.\<close>

definition c5_direct :: string where
  "c5_direct = ''/proj/show/incoming/20240102/shot.mov''"

definition c5_fs_direct :: filesys where
  "c5_fs_direct = c5_fs\<lparr>isfile := (\<lambda>p. p = c5_direct)\<rparr>"

definition c5_cdl_new :: cdl where
  "c5_cdl_new = \<lparr>cdl_slope = Some [1, 1, 1], cdl_offset = Some [0, 0, 0], cdl_power = Some [1, 1, 1],
                 cdl_sat = None, cdl_file = c5_new @ ''/pkg/shot.cc''\<rparr>"




text \<open>
  A \<open>ccc\<close> file that parses and a \<open>cc\<close> file, both named after the source. The \<open>cc\<close> file
  holds a number with a comma, which the slope pattern captures and \<open>float\<close> rejects; in
  the second world the \<open>cc\<close> file does not decode. The EDL does not decode either.
\<close>

definition c7_files :: "string \<rightharpoonup> string list" where
  "c7_files = [''ccc'' \<mapsto> [''/pkg/shot.ccc''], ''cc'' \<mapsto> [''/pkg/shot.cc'']]"

definition c7_fs :: filesys where
  "c7_fs = no_fs\<lparr>read_text :=
     (\<lambda>p. if p = ''/pkg/shot.ccc'' then Text sop_text
          else if p = ''/pkg/shot.cc'' then Text ''<slope>1,0 1 1</slope>''
          else if p = ''/pkg/cut.edl'' then Undecodable
          else NoFile),
     otio_read := (\<lambda>p. Inl UnicodeDecodeError)\<rparr>"

definition c7_fs_binary :: filesys where
  "c7_fs_binary = no_fs\<lparr>read_text :=
     (\<lambda>p. if p = ''/pkg/shot.ccc'' then Text sop_text
          else if p = ''/pkg/shot.cc'' then Undecodable
          else NoFile)\<rparr>"

text \<open>A \<open>cdl\<close> file named after the shot, in lower case.\<close>

definition c8_files :: "string \<rightharpoonup> string list" where
  "c8_files = [''cdl'' \<mapsto> [''/pkg/shot01.cdl'']]"

definition c8_fs :: filesys where
  "c8_fs = no_fs\<lparr>read_text := (\<lambda>p. if p = ''/pkg/shot01.cdl'' then Text sop_text else NoFile)\<rparr>"

text \<open>
  Two EDL files on which the OTIO adapter fails: one that does not decode, and one that
  decodes to a text without any edit. A third on which the adapter returns one track
  without clips.
\<close>

definition c10_fs :: filesys where
  "c10_fs = no_fs
     \<lparr>read_text := (\<lambda>p. if p = ''/pkg/binary.edl'' then Undecodable
                          else if p = ''/pkg/notes.edl'' then Text ''TITLE: notes''
                          else if p = ''/pkg/empty.edl'' then Text ''TITLE: empty''
                          else NoFile),
      otio_read := (\<lambda>p. if p = ''/pkg/binary.edl'' then Inl UnicodeDecodeError
                          else if p = ''/pkg/empty.edl'' then Inr \<lparr>tracks = [[]]\<rparr>
                          else Inl OtherError)\<rparr>"

text \<open>
  An EDL with one edit without colour, read by the regex parser because the OTIO adapter
  fails on it; and a timeline of the adapter with a clip that has \<open>cdl\<close> metadata, a gap
  and a clip without.
\<close>

definition c9_text :: string where
  "c9_text = ''TITLE: cut'' @ [LF] @ ''002  BX V C''"


definition c9_track :: "otio_child list" where
  "c9_track =
     [Clip \<lparr>clip_name = ''a'', clip_cdl = Some c3_md, clip_markers = [], clip_reel = Some ''AX''\<rparr>,
      NotClip,
      Clip \<lparr>clip_name = ''b'', clip_cdl = None, clip_markers = [], clip_reel = None\<rparr>]"

text \<open>An EDL whose first line is an edit, and one with two edits of the same number.\<close>

definition c9_first_text :: string where
  "c9_first_text = ''001  AX V C'' @ [LF] @ ''002  BX V C''"

definition c9_twice_text :: string where
  "c9_twice_text = ''TITLE: cut'' @ [LF] @ ''002  AX V C'' @ [LF] @ ''002  BX V C''"

definition c9_fs :: filesys where
  "c9_fs = no_fs
     \<lparr>read_text := (\<lambda>p. if p = ''/pkg/cut.edl'' then Text c9_text
                          else if p = ''/pkg/first.edl'' then Text c9_first_text
                          else if p = ''/pkg/twice.edl'' then Text c9_twice_text
                          else NoFile),
      otio_read := (\<lambda>p. if p = ''/pkg/otio.edl'' then Inr \<lparr>tracks = [c9_track]\<rparr>
                          else Inl OtherError)\<rparr>"







section \<open>The matcher stays in its text\<close>

lemma contains_startswith: "startswith s x \<Longrightarrow> contains s x"
  by (cases s) (auto simp: startswith_def)

lemma contains_append: "contains (a @ l @ b) l"
proof (induction a)
  case Nil
  have "startswith (l @ b) l" by (simp add: startswith_def)
  then show ?case by (simp add: contains_startswith)
next
  case (Cons x a)
  then show ?case by simp
qed

lemma rep_cases:
  assumes "rep m lo hi g k (p, r, c) = Some res"
  shows "m (\<lambda>s'. if length (fst (snd s')) < length r
                  then rep m (lo - 1) (map_option (\<lambda>h. h - 1) hi) g k s'
                  else None) (p, r, c) = Some res
         \<or> (lo = 0 \<and> k (p, r, c) = Some res)"
  using assms
  by (auto simp: rep.simps Let_def split: if_splits option.splits)

lemma rep_passes:
  assumes "passes m"
  shows "rep m lo hi g k s = Some res \<Longrightarrow> \<exists>s'. mtext s' = mtext s \<and> k s' = Some res"
proof (induction "length (fst (snd s))" arbitrary: lo hi s rule: less_induct)
  case less
  obtain p r c where s: "s = (p, r, c)" by (cases s) auto
  let ?k = "\<lambda>s'. if length (fst (snd s')) < length r
                  then rep m (lo - 1) (map_option (\<lambda>h. h - 1) hi) g k s'
                  else None"
  from less.prems s have "m ?k (p, r, c) = Some res \<or> (lo = 0 \<and> k (p, r, c) = Some res)"
    using rep_cases by blast
  then show ?case
  proof
    assume "m ?k (p, r, c) = Some res"
    with assms obtain s1 where s1: "mtext s1 = mtext (p, r, c)" and r: "?k s1 = Some res"
      unfolding passes_def by blast
    from r have l: "length (fst (snd s1)) < length r"
      and "rep m (lo - 1) (map_option (\<lambda>h. h - 1) hi) g k s1 = Some res"
      by (auto split: if_splits)
    with less.hyps [of s1] s have "\<exists>s'. mtext s' = mtext s1 \<and> k s' = Some res"
      by simp
    with s1 s show ?thesis by auto
  next
    assume "lo = 0 \<and> k (p, r, c) = Some res"
    with s show ?thesis by blast
  qed
qed

lemma bt_passes: "passes (bt r)"
proof (induction r)
  case (Lit l)
  show ?case
    unfolding passes_def
  proof (intro allI impI)
    fix k s res assume a: "bt (Lit l) k s = Some res"
    obtain p r c where s: "s = (p, r, c)" by (cases s) auto
    from a s have sw: "startswith r l" and k: "k (rev l @ p, drop (length l) r, c) = Some res"
      by (auto split: if_splits)
    from sw have "l @ drop (length l) r = r"
      by (metis append_take_drop_id startswith_def)
    then have "mtext (rev l @ p, drop (length l) r, c) = mtext s"
      by (simp add: mtext_def s)
    with k show "\<exists>s'. mtext s' = mtext s \<and> k s' = Some res" by blast
  qed
next
  case (Cls cs)
  show ?case
    unfolding passes_def
  proof (intro allI impI)
    fix k s res assume a: "bt (Cls cs) k s = Some res"
    obtain p r c where s: "s = (p, r, c)" by (cases s) auto
    from a s obtain x r' where r: "r = x # r'" and k: "k (x # p, r', c) = Some res"
      by (auto split: list.splits if_splits)
    have "mtext (x # p, r', c) = mtext s" by (simp add: mtext_def s r)
    with k show "\<exists>s'. mtext s' = mtext s \<and> k s' = Some res" by blast
  qed
next
  case Dot
  show ?case
    unfolding passes_def
  proof (intro allI impI)
    fix k s res assume a: "bt Dot k s = Some res"
    obtain p r c where s: "s = (p, r, c)" by (cases s) auto
    from a s obtain x r' where r: "r = x # r'" and k: "k (x # p, r', c) = Some res"
      by (auto split: list.splits if_splits)
    have "mtext (x # p, r', c) = mtext s" by (simp add: mtext_def s r)
    with k show "\<exists>s'. mtext s' = mtext s \<and> k s' = Some res" by blast
  qed
next
  case (Seq a b)
  show ?case unfolding passes_def
  proof (intro allI impI)
    fix k s res assume "bt (Seq a b) k s = Some res"
    then have "bt a (bt b k) s = Some res" by simp
    with Seq.IH(1) obtain s1 where "mtext s1 = mtext s" "bt b k s1 = Some res"
      unfolding passes_def by blast
    with Seq.IH(2) show "\<exists>s'. mtext s' = mtext s \<and> k s' = Some res"
      unfolding passes_def by metis
  qed
next
  case (Alt a b)
  show ?case unfolding passes_def
  proof (intro allI impI)
    fix k s res assume "bt (Alt a b) k s = Some res"
    then have "bt a k s = Some res \<or> bt b k s = Some res" by (auto split: option.splits)
    with Alt.IH show "\<exists>s'. mtext s' = mtext s \<and> k s' = Some res"
      unfolding passes_def by blast
  qed
next
  case (Rep lo hi g a)
  show ?case unfolding passes_def
    using rep_passes [OF Rep.IH] by simp
next
  case (Grp n a)
  show ?case unfolding passes_def
  proof (intro allI impI)
    fix k s res assume a: "bt (Grp n a) k s = Some res"
    obtain p r c where s: "s = (p, r, c)" by (cases s) auto
    from a s have "bt a (\<lambda>(p', r', c'). k (p', r', (n, rev (take (length p' - length p) p')) # c')) s = Some res"
      by simp
    with Grp.IH obtain s1 where s1: "mtext s1 = mtext s"
      and k: "(\<lambda>(p', r', c'). k (p', r', (n, rev (take (length p' - length p) p')) # c')) s1 = Some res"
      unfolding passes_def by blast
    obtain p1 r1 c1 where "s1 = (p1, r1, c1)" by (cases s1) auto
    with s1 k show "\<exists>s'. mtext s' = mtext s \<and> k s' = Some res"
      by (auto simp: mtext_def)
  qed
next
  case (Ahead a)
  show ?case
    unfolding passes_def
  proof (intro allI impI)
    fix k s res assume a: "bt (Ahead a) k s = Some res"
    obtain p r c where s: "s = (p, r, c)" by (cases s) auto
    from a s have "k s = Some res"
      by (auto split: option.splits list.splits if_splits)
    then show "\<exists>s'. mtext s' = mtext s \<and> k s' = Some res" by blast
  qed
next
  case (Behind cs)
  show ?case
    unfolding passes_def
  proof (intro allI impI)
    fix k s res assume a: "bt (Behind cs) k s = Some res"
    obtain p r c where s: "s = (p, r, c)" by (cases s) auto
    from a s have "k s = Some res"
      by (auto split: option.splits list.splits if_splits)
    then show "\<exists>s'. mtext s' = mtext s \<and> k s' = Some res" by blast
  qed
next
  case (NotBehind cs)
  show ?case
    unfolding passes_def
  proof (intro allI impI)
    fix k s res assume a: "bt (NotBehind cs) k s = Some res"
    obtain p r c where s: "s = (p, r, c)" by (cases s) auto
    from a s have "k s = Some res"
      by (auto split: option.splits list.splits if_splits)
    then show "\<exists>s'. mtext s' = mtext s \<and> k s' = Some res" by blast
  qed
next
  case WordB
  show ?case
    unfolding passes_def
  proof (intro allI impI)
    fix k s res assume a: "bt (WordB) k s = Some res"
    obtain p r c where s: "s = (p, r, c)" by (cases s) auto
    from a s have "k s = Some res"
      by (auto split: option.splits list.splits if_splits)
    then show "\<exists>s'. mtext s' = mtext s \<and> k s' = Some res" by blast
  qed
next
  case EndZ
  show ?case
    unfolding passes_def
  proof (intro allI impI)
    fix k s res assume a: "bt (EndZ) k s = Some res"
    obtain p r c where s: "s = (p, r, c)" by (cases s) auto
    from a s have "k s = Some res"
      by (auto split: option.splits list.splits if_splits)
    then show "\<exists>s'. mtext s' = mtext s \<and> k s' = Some res" by blast
  qed
qed

lemma rep_has_lit:
  assumes ih: "\<And>k s res. m k s = Some res \<Longrightarrow> contains (mtext s) l" and lo: "0 < lo"
  shows "rep m lo hi g k s = Some res \<Longrightarrow> contains (mtext s) l"
proof -
  assume a: "rep m lo hi g k s = Some res"
  obtain p r c where s: "s = (p, r, c)" by (cases s) auto
  from a s lo have "m (\<lambda>s'. if length (fst (snd s')) < length r
                  then rep m (lo - 1) (map_option (\<lambda>h. h - 1) hi) g k s'
                  else None) (p, r, c) = Some res"
    using rep_cases by blast
  with s show ?thesis using ih by blast
qed

lemma bt_has_lit: "has_lit l r \<Longrightarrow> bt r k s = Some res \<Longrightarrow> contains (mtext s) l"
proof (induction r arbitrary: k s res)
  case (Lit l')
  obtain p r c where s: "s = (p, r, c)" by (cases s) auto
  from Lit s have sw: "startswith r l" by (auto split: if_splits)
  then have "r = l @ drop (length l) r" by (metis append_take_drop_id startswith_def)
  then have "mtext s = rev p @ l @ drop (length l) r" by (simp add: mtext_def s)
  then show ?case by (metis contains_append)
next
  case (Seq a b)
  from Seq.prems(2) have m: "bt a (bt b k) s = Some res" by simp
  show ?case
  proof (cases "has_lit l a")
    case True
    from Seq.IH(1) [OF True m] show ?thesis .
  next
    case False
    with Seq.prems(1) have hb: "has_lit l b" by simp
    from m bt_passes [of a] obtain s1 where "mtext s1 = mtext s" "bt b k s1 = Some res"
      unfolding passes_def by blast
    with Seq.IH(2) [OF hb] show ?thesis by metis
  qed
next
  case (Alt a b)
  from Alt.prems(1) have ha: "has_lit l a" and hb: "has_lit l b" by simp_all
  from Alt.prems(2) have "bt a k s = Some res \<or> bt b k s = Some res" by (auto split: option.splits)
  then show ?case
  proof
    assume "bt a k s = Some res"
    from Alt.IH(1) [OF ha this] show ?thesis .
  next
    assume "bt b k s = Some res"
    from Alt.IH(2) [OF hb this] show ?thesis .
  qed
next
  case (Rep lo hi g a)
  from Rep.prems(1) have lo: "0 < lo" and ha: "has_lit l a" by simp_all
  from Rep.prems(2) have "rep (bt a) lo hi g k s = Some res" by simp
  then show ?case
    using rep_has_lit [of "bt a" l lo] Rep.IH [OF ha] lo by blast
next
  case (Grp n a)
  obtain p r c where s: "s = (p, r, c)" by (cases s) auto
  from Grp.prems(2) s have "bt a (\<lambda>(p', r', c'). k (p', r', (n, rev (take (length p' - length p) p')) # c')) s = Some res"
    by simp
  moreover from Grp.prems(1) have "has_lit l a" by simp
  ultimately show ?case by (rule Grp.IH [rotated])
qed simp_all

lemma search_at_has_lit:
  "has_lit l rx \<Longrightarrow> search_at rx p s = Some m \<Longrightarrow> contains (rev p @ s) l"
proof (induction s arbitrary: p)
  case Nil
  then obtain st where "bt rx Some (p, [], []) = Some st" by auto
  from bt_has_lit [OF Nil.prems(1) this] show ?case by (simp add: mtext_def)
next
  case (Cons x xs)
  show ?case
  proof (cases "bt rx Some (p, x # xs, [])")
    case None
    with Cons.prems have "search_at rx (x # p) xs = Some m" by simp
    from Cons.IH [OF Cons.prems(1) this] show ?thesis by simp
  next
    case (Some st)
    from bt_has_lit [OF Cons.prems(1) this] show ?thesis by (simp add: mtext_def)
  qed
qed

lemma re_search_has_lit: "has_lit l rx \<Longrightarrow> \<not> contains s l \<Longrightarrow> re_search rx s = None"
  using search_at_has_lit [of l rx "[]" s] by (cases "re_search rx s") (auto simp: re_search_def)

lemma has_lit_cdl_sat: "has_lit ''<saturation>'' cdl_sat_pattern"
  by (simp add: cdl_sat_pattern_def seqs_def)

lemma has_lit_edl_sat: "has_lit ''ASC_SAT'' edl_sat_pattern"
  by (simp add: edl_sat_pattern_def seqs_def)

section \<open>The priority example of the matcher\<close>

lemma np_shotA_cc: "name_priority ''shot01'' ''shota_cc'' ''shotA.cc'' = Some 4"
  by code_simp

lemma np_shotA_ccc: "name_priority ''shot01'' ''shota_cc'' ''shotA.ccc'' = Some 4"
  by code_simp

lemma np_shot01_cdl: "name_priority ''shot01'' ''shota_cc'' ''shot01.cdl'' = Some 8"
  by code_simp

lemma lower_shotA_cc: "py_lower ''shotA_cc'' = ''shota_cc''"
  by code_simp

lemma c1_lookup:
  "c1_files ''ccc'' = Some [''shotA.ccc'']" "c1_files ''cc'' = Some [''shotA.cc'']"
  "c1_files ''cdl'' = Some [''shot01.cdl'']" "c1_files ''cube'' = None" "c1_files ''3dl'' = None"
  "c1_files ''csp'' = None" "c1_files ''lut'' = None" "c1_files ''edl'' = None"
  by (simp_all add: c1_files_def)

lemma c1_parse:
  "parse_cdl c1_fs ''shotA.cc'' =
     Inr \<lparr>cdl_slope = Some [1, 1, 1], cdl_offset = Some [0, 0, 0], cdl_power = Some [1, 1, 1],
          cdl_sat = None, cdl_file = ''shotA.cc''\<rparr>"
  "parse_cdl c1_fs ''shotA.ccc'' =
     Inr \<lparr>cdl_slope = Some [1, 1, 1], cdl_offset = Some [0, 0, 0], cdl_power = Some [1, 1, 1],
          cdl_sat = None, cdl_file = ''shotA.ccc''\<rparr>"
  "parse_cdl c1_fs ''shot01.cdl'' =
     Inr \<lparr>cdl_slope = Some [1, 1, 1], cdl_offset = Some [0, 0, 0], cdl_power = Some [1, 1, 1],
          cdl_sat = None, cdl_file = ''shot01.cdl''\<rparr>"
  by code_simp+

text \<open>
  Claim C1, as the code has it. For the source name \<open>shotA_cc\<close>, the shot name \<open>shot01\<close> and
  the candidates \<open>shotA.cc\<close>, \<open>shotA.ccc\<close> and \<open>shot01.cdl\<close>, whatever the three files hold as
  long as \<open>parse_cdl\<close> reads them: the matches are \<open>shotA.ccc\<close> with priority 5, \<open>shotA.cc\<close>
  with priority 4 and \<open>shot01.cdl\<close> with priority 11, and \<open>priority_color_file\<close> returns
  \<open>shotA.cc\<close> with priority 4. The stem \<open>shota\<close> is not the source name \<open>shota_cc\<close> but the
  source name without its colour suffix, which is the base priority 4.
\<close>

theorem C1_priorities:
  assumes "parse_cdl fs ''shotA.cc'' = Inr c1" and "parse_cdl fs ''shotA.ccc'' = Inr c2"
    and "parse_cdl fs ''shot01.cdl'' = Inr c3"
  shows "all_matches fs c1_files ''shot01'' ''shotA_cc'' =
           Inr [(5, FileGrade c2, ''shotA.ccc''), (4, FileGrade c1, ''shotA.cc''),
                (11, FileGrade c3, ''shot01.cdl'')]
         \<and> priority_color_file fs c1_files ''shot01'' ''shotA_cc'' =
             Inr (Some (4, FileGrade c1, ''shotA.cc''))"
proof -
  have m: "all_matches fs c1_files ''shot01'' ''shotA_cc'' =
           Inr [(5, FileGrade c2, ''shotA.ccc''), (4, FileGrade c1, ''shotA.cc''),
                (11, FileGrade c3, ''shot01.cdl'')]"
    using assms
    by (simp add: all_matches_def COLOR_FILE_EXTS_def LUTS_2D_def LUTS_3D_def ext_matches_def
        c1_lookup file_matches_def lower_shotA_cc np_shotA_cc np_shotA_ccc np_shot01_cdl
        type_priority_def)
  show ?thesis
    by (simp add: priority_color_file_def m)
qed

text \<open>The theorem at the files of the example.\<close>

theorem C1_priorities_witness:
  "ranking (all_matches c1_fs c1_files ''shot01'' ''shotA_cc'') =
     [(5, ''shotA.ccc''), (4, ''shotA.cc''), (11, ''shot01.cdl'')]
   \<and> winner (priority_color_file c1_fs c1_files ''shot01'' ''shotA_cc'') = Some (4, ''shotA.cc'')"
  using C1_priorities [OF c1_parse]
  by (simp add: ranking_def winner_def)

text \<open>Claim C1 as it is written fails: the winner does not have priority 0, and
  \<open>shotA.ccc\<close> is not ranked at priority 1.\<close>

theorem C1_counterexample:
  "winner (priority_color_file c1_fs c1_files ''shot01'' ''shotA_cc'') \<noteq> Some (0, ''shotA.cc'')
   \<and> (1, ''shotA.ccc'') \<notin> set (ranking (all_matches c1_fs c1_files ''shot01'' ''shotA_cc''))"
  by code_simp

section \<open>\<open>parse_cdl\<close>: the fields are independent\<close>

lemma c2_parse: "parse_cdl c2_fs ''grade.cc'' = Inr c2_cdl"
  by code_simp

lemma triple_of_None: "triple_of mo names = Inr v \<Longrightarrow> (v = None) = (mo = None)"
  by (auto simp: triple_of_def split: option.splits sum.splits)

lemma sat_of_None:
  assumes "sat_of mo = Inr v"
  shows "(v = None) = (mo = None)"
proof (cases mo)
  case None
  with assms show ?thesis by (simp add: sat_of_def)
next
  case m: (Some m)
  show ?thesis
  proof (cases "py_float (group m ''sat'')")
    case None
    with m assms show ?thesis by (simp add: sat_of_def)
  next
    case (Some y)
    with m assms have "v = Some y" by (simp add: sat_of_def)
    with m show ?thesis by simp
  qed
qed

lemma parse_cdl_text_Inr:
  assumes "parse_cdl_text path data = Inr c"
  shows "triple_of (re_search cdl_slope_pattern (py_lower data)) [''sR'', ''sG'', ''sB''] = Inr (cdl_slope c)
       \<and> triple_of (re_search cdl_offset_pattern (py_lower data)) [''oR'', ''oG'', ''oB''] = Inr (cdl_offset c)
       \<and> triple_of (re_search cdl_power_pattern (py_lower data)) [''pR'', ''pG'', ''pB''] = Inr (cdl_power c)
       \<and> sat_of (re_search cdl_sat_pattern (py_lower data)) = Inr (cdl_sat c)
       \<and> cdl_file c = path"
  using assms
  by (auto simp: parse_cdl_text_def Let_def split: sum.splits)

text \<open>
  Claim C2, as the code has it. When \<open>parse_cdl\<close> returns, the file was read as text and
  each field of the result stands alone: the slope is \<open>None\<close> exactly when the slope
  pattern is not found in the lower-cased text, and likewise the offset, the power and the
  saturation, whatever the other fields are. Nothing makes the whole result \<open>None\<close> when
  one group is missing.
\<close>

theorem C2_fields_independent:
  assumes "parse_cdl fs path = Inr c"
  shows "\<exists>text. read_text fs path = Text text
           \<and> (cdl_slope c = None) = (re_search cdl_slope_pattern (py_lower text) = None)
           \<and> (cdl_offset c = None) = (re_search cdl_offset_pattern (py_lower text) = None)
           \<and> (cdl_power c = None) = (re_search cdl_power_pattern (py_lower text) = None)
           \<and> (cdl_sat c = None) = (re_search cdl_sat_pattern (py_lower text) = None)
           \<and> cdl_file c = path"
proof -
  from assms obtain data where t: "read_text fs path = Text data"
    and p: "parse_cdl_text path data = Inr c"
    by (auto simp: parse_cdl_def open_read_def split: file_content.splits)
  note r = parse_cdl_text_Inr [OF p]
  from r have s: "triple_of (re_search cdl_slope_pattern (py_lower data)) [''sR'', ''sG'', ''sB'']
      = Inr (cdl_slope c)"
    by (rule conjunct1)
  from r have o: "triple_of (re_search cdl_offset_pattern (py_lower data)) [''oR'', ''oG'', ''oB'']
      = Inr (cdl_offset c)"
    by (elim conjE)
  from r have w: "triple_of (re_search cdl_power_pattern (py_lower data)) [''pR'', ''pG'', ''pB'']
      = Inr (cdl_power c)"
    by (elim conjE)
  from r have a: "sat_of (re_search cdl_sat_pattern (py_lower data)) = Inr (cdl_sat c)"
    by (elim conjE)
  from r have f: "cdl_file c = path"
    by (elim conjE)
  show ?thesis
    by (rule exI [of _ data]) (simp only: t triple_of_None [OF s] triple_of_None [OF o]
        triple_of_None [OF w] sat_of_None [OF a] f simp_thms)
qed

text \<open>The theorem at a file that holds a slope only.\<close>

theorem C2_fields_independent_witness:
  "re_search cdl_slope_pattern (py_lower c2_text) \<noteq> None
   \<and> re_search cdl_offset_pattern (py_lower c2_text) = None
   \<and> re_search cdl_power_pattern (py_lower c2_text) = None"
proof -
  from C2_fields_independent [OF c2_parse] obtain data
    where t: "read_text c2_fs ''grade.cc'' = Text data"
      and s: "(cdl_slope c2_cdl = None) = (re_search cdl_slope_pattern (py_lower data) = None)"
      and o: "(cdl_offset c2_cdl = None) = (re_search cdl_offset_pattern (py_lower data) = None)"
      and p: "(cdl_power c2_cdl = None) = (re_search cdl_power_pattern (py_lower data) = None)"
    by (elim exE conjE)
  have "read_text c2_fs ''grade.cc'' = Text c2_text"
    by (simp add: c2_fs_def)
  with t have d: "data = c2_text" by simp
  have "cdl_slope c2_cdl \<noteq> None" "cdl_offset c2_cdl = None" "cdl_power c2_cdl = None"
    by (simp_all add: c2_cdl_def)
  with s o p show ?thesis
    unfolding d by blast
qed

text \<open>Claim C2 as it is written fails: for a text with a slope and no offset and no
  power, \<open>parse_cdl\<close> returns a partial result, the slope set and the offset \<open>None\<close>.\<close>

theorem C2_counterexample:
  "parse_cdl c2_fs ''grade.cc'' =
     Inr \<lparr>cdl_slope = Some [101 / 100, 1, 99 / 100], cdl_offset = None, cdl_power = None,
          cdl_sat = None, cdl_file = ''grade.cc''\<rparr>"
  by code_simp

section \<open>The saturation when it is absent\<close>

lemmas float_defs = py_float_def py_strip_def is_strip_space_def char_code_def is_digit_def
  digits_val_def digit_val_def

lemma c3_parse: "parse_cdl_text ''grade.cdl'' sop_text = Inr c3_cdl"
  by code_simp

lemma c3_no_sat: "\<not> contains (py_lower sop_text) ''<saturation>''"
  by code_simp

lemma floats_ones: "floats [''1.0000'', ''1.0000'', ''1.0000''] = Inr [1, 1, 1]"
  by (simp add: float_defs)

lemma floats_zeros: "floats [''0.0000'', ''0.0000'', ''0.0000''] = Inr [0, 0, 0]"
  by (simp add: float_defs)

lemma c3_sop_groups:
  "map_option (\<lambda>m. map (group m) [''sR'', ''sG'', ''sB'', ''oR'', ''oG'', ''oB'', ''pR'', ''pG'', ''pB''])
     (re_search sop_pattern c3_edit)
   = Some [''1.0000'', ''1.0000'', ''1.0000'', ''0.0000'', ''0.0000'', ''0.0000'',
           ''1.0000'', ''1.0000'', ''1.0000'']"
  by code_simp

lemma c3_sop: "sop_of c3_edit = Inr (Some ([1, 1, 1], [0, 0, 0], [1, 1, 1]))"
proof -
  from c3_sop_groups obtain m where m: "re_search sop_pattern c3_edit = Some m"
    and g: "map (group m) [''sR'', ''sG'', ''sB'', ''oR'', ''oG'', ''oB'', ''pR'', ''pG'', ''pB'']
      = [''1.0000'', ''1.0000'', ''1.0000'', ''0.0000'', ''0.0000'', ''0.0000'',
         ''1.0000'', ''1.0000'', ''1.0000'']"
    by (cases "re_search sop_pattern c3_edit") auto
  from g have s: "map (group m) [''sR'', ''sG'', ''sB''] = [''1.0000'', ''1.0000'', ''1.0000'']"
    and f: "map (group m) [''oR'', ''oG'', ''oB''] = [''0.0000'', ''0.0000'', ''0.0000'']"
    and w: "map (group m) [''pR'', ''pG'', ''pB''] = [''1.0000'', ''1.0000'', ''1.0000'']"
    by simp_all
  show ?thesis
    by (simp add: sop_of_def m s f w floats_ones floats_zeros del: floats.simps list.map)
qed

lemma c3_entry: "entry_of c3_edit = Inr 1"
  by code_simp

lemma c3_tape: "group_or_empty tape_pattern ''source'' c3_edit = ''AX''"
  by code_simp

lemma c3_clip_name: "group_or_empty clip_name_pattern ''clip_name'' c3_edit = []"
  by code_simp

lemma c3_loc: "group_or_empty loc_pattern ''LOC'' c3_edit = []"
  by code_simp

lemma c3_sat: "edl_sat_of c3_edit = PyInt 1"
  by code_simp

lemma c3_parse_edit: "parse_edit c3_edit = Inr (1, c3_event)"
  by (simp add: parse_edit_def c3_sop c3_entry c3_tape c3_clip_name c3_loc c3_sat c3_event_def
      c3_sops_def)

lemma c3_no_asc_sat: "\<not> contains c3_edit ''ASC_SAT''"
  by code_simp

lemma c3_clip: "clip_sops c3_md = Inr (c3_sops (PyFloat 1))"
  by (simp add: clip_sops_def c3_md_def c3_sops_def otio_sat_def)

text \<open>
  Claim C3, as the code has it. \<open>parse_cdl\<close> has no default: for a text in which
  \<open><saturation>\<close> does not occur, the saturation of the result is \<open>None\<close>. An event of the
  regex parser that carries a colour decision, read from an edit in which \<open>ASC_SAT\<close> does
  not occur, has the saturation 1, the integer. The colour keys that the OTIO parser makes
  from \<open>cdl\<close> metadata without \<open>asc_sat\<close> have the saturation 1.0.
\<close>

theorem C3_saturation_absent:
  "(parse_cdl_text path text = Inr c \<and> \<not> contains (py_lower text) ''<saturation>'' \<longrightarrow> cdl_sat c = None)
   \<and> (parse_edit edit_value = Inr (n, ev) \<and> ev_color ev = Some col \<and> \<not> contains edit_value ''ASC_SAT''
        \<longrightarrow> col_sat col = PyInt 1)
   \<and> (clip_sops md = Inr col' \<and> asc_sat md = None \<longrightarrow> col_sat col' = PyFloat 1)"
proof (intro conjI impI)
  assume a: "parse_cdl_text path text = Inr c \<and> \<not> contains (py_lower text) ''<saturation>''"
  then have "re_search cdl_sat_pattern (py_lower text) = None"
    by (simp add: re_search_has_lit [OF has_lit_cdl_sat])
  moreover from a have "sat_of (re_search cdl_sat_pattern (py_lower text)) = Inr (cdl_sat c)"
    using parse_cdl_text_Inr by blast
  ultimately show "cdl_sat c = None"
    by (simp add: sat_of_def)
next
  assume a: "parse_edit edit_value = Inr (n, ev) \<and> ev_color ev = Some col \<and> \<not> contains edit_value ''ASC_SAT''"
  then have "re_search edl_sat_pattern edit_value = None"
    by (simp add: re_search_has_lit [OF has_lit_edl_sat])
  then have "edl_sat_of edit_value = PyInt 1"
    by (simp add: edl_sat_of_def)
  with a show "col_sat col = PyInt 1"
    by (auto simp: parse_edit_def split: sum.splits option.splits)
next
  assume "clip_sops md = Inr col' \<and> asc_sat md = None"
  then show "col_sat col' = PyFloat 1"
    by (auto simp: clip_sops_def otio_sat_def split: option.splits)
qed

text \<open>The theorem at a colour file, an edit and clip metadata without saturation.\<close>

theorem C3_saturation_absent_witness:
  "cdl_sat c3_cdl = None \<and> col_sat (c3_sops (PyInt 1)) = PyInt 1
   \<and> col_sat (c3_sops (PyFloat 1)) = PyFloat 1"
  using C3_saturation_absent [of "''grade.cdl''" sop_text c3_cdl c3_edit 1 c3_event
      "c3_sops (PyInt 1)" c3_md "c3_sops (PyFloat 1)"]
    c3_parse c3_no_sat c3_parse_edit c3_no_asc_sat c3_clip
  by (simp add: c3_event_def c3_md_def)

text \<open>Claim C3 as it is written fails for \<open>parse_cdl\<close>: slope, offset and power are
  present, the text has no saturation, and the saturation returned is not 1.0.\<close>

theorem C3_counterexample:
  "parse_cdl c3_fs ''grade.cdl'' = Inr c3_cdl \<and> cdl_slope c3_cdl \<noteq> None
   \<and> cdl_offset c3_cdl \<noteq> None \<and> cdl_power c3_cdl \<noteq> None \<and> cdl_sat c3_cdl \<noteq> Some 1"
  by code_simp

section \<open>The shot token patterns on the documented examples\<close>

text \<open>
  Claim C4 on the code. The docstrings of both parsers list \<open>abc_101_010_010_element\<close> and
  \<open>101_010_010\<close> as matches and \<open>abc_101\<close>, \<open>_abc_101_010\<close> and \<open>abc_101_010_\<close> as no
  matches. The pattern of the regex parser extracts \<open>_abc_101_010\<close> whole: its class \<open>[\w]\<close>
  contains the underscore. The pattern of the OTIO parser matches none of the five: it ends
  with a literal backspace, and it matches once the marker name ends with one.
\<close>

theorem C4_token_patterns:
  "loc_of ''abc_101_010_010_element'' = ''abc_101_010_010_element''
   \<and> loc_of ''abc_101'' = []
   \<and> loc_of ''_abc_101_010'' = ''_abc_101_010''
   \<and> loc_of ''abc_101_010_'' = []
   \<and> loc_of ''101_010_010'' = ''101_010_010''
   \<and> shot_of ''abc_101_010_010_element'' = []
   \<and> shot_of ''abc_101'' = []
   \<and> shot_of ''_abc_101_010'' = []
   \<and> shot_of ''abc_101_010_'' = []
   \<and> shot_of ''101_010_010'' = []
   \<and> shot_of (''101_010_010'' @ [CHR 0x08]) = ''101_010_010''"
  by code_simp

section \<open>The order in which \<open>get_color_file\<close> scans the packages\<close>

lemma c5_paths: "package_paths c5_source = Inr (Some (c5_new @ ''/pkg'', ''/proj/show/incoming''))"
  by code_simp

lemma c5_sorted: "sorted_incoming c5_fs (c5_new @ ''/pkg'') ''/proj/show/incoming'' = [c5_old, c5_new]"
  by code_simp

lemma c5_pcf: "priority_color_file c5_fs (get_files c5_fs c5_old COLOR_FILE_EXTS) ''sh010'' ''shot''
   = Inr (Some (0, FileGrade c5_cdl, c5_old @ ''/pkg/shot.cc''))"
  by code_simp

lemma c5_get: "get_color_file c5_fs c5_source ''sh010'' ''shot'' = Inr (Some (0, FileGrade c5_cdl, c5_old @ ''/pkg/shot.cc''))"
  by code_simp

lemma scan_packages_first:
  assumes "scan_packages fs item source xs = Inr r" and "has_color_file r"
  shows "\<exists>ys p zs. xs = ys @ p # zs
           \<and> priority_color_file fs (get_files fs p COLOR_FILE_EXTS) item source = Inr r
           \<and> (\<forall>q \<in> set ys. \<exists>r'. priority_color_file fs (get_files fs q COLOR_FILE_EXTS) item source = Inr r'
                  \<and> \<not> has_color_file r')"
  using assms
proof (induction xs)
  case Nil
  then show ?case by (simp add: has_color_file_def)
next
  case (Cons x xs)
  from Cons.prems(1) obtain rx where rx: "priority_color_file fs (get_files fs x COLOR_FILE_EXTS) item source = Inr rx"
    by (auto split: sum.splits)
  show ?case
  proof (cases "has_color_file rx \<or> xs = []")
    case True
    with Cons.prems(1) rx have "rx = r" by simp
    with rx have "x # xs = [] @ x # xs \<and> priority_color_file fs (get_files fs x COLOR_FILE_EXTS) item source = Inr r
        \<and> (\<forall>q \<in> set []. \<exists>r'. priority_color_file fs (get_files fs q COLOR_FILE_EXTS) item source = Inr r'
                  \<and> \<not> has_color_file r')"
      by simp
    then show ?thesis by blast
  next
    case False
    with Cons.prems(1) rx have "scan_packages fs item source xs = Inr r" by simp
    from Cons.IH [OF this Cons.prems(2)] obtain ys p zs where
      d: "xs = ys @ p # zs"
      and p: "priority_color_file fs (get_files fs p COLOR_FILE_EXTS) item source = Inr r"
      and q: "\<forall>q \<in> set ys. \<exists>r'. priority_color_file fs (get_files fs q COLOR_FILE_EXTS) item source = Inr r'
                  \<and> \<not> has_color_file r'"
      by blast
    from d have "x # xs = (x # ys) @ p # zs" by simp
    moreover from q rx False
    have "\<forall>q \<in> set (x # ys). \<exists>r'. priority_color_file fs (get_files fs q COLOR_FILE_EXTS) item source = Inr r'
                  \<and> \<not> has_color_file r'"
      by auto
    ultimately show ?thesis using p by blast
  qed
qed

lemma sorted_incoming_order:
  "(\<not> isfile fs pp \<longrightarrow> sorted (map (package_key fs) (sorted_incoming fs pp ip)))
   \<and> (isfile fs pp \<longrightarrow> hd (sorted_incoming fs pp ip) = dirname pp
         \<and> sorted (map (package_key fs) (tl (sorted_incoming fs pp ip))))"
  by (simp add: sorted_incoming_def Let_def sorted_map_remove1)

text \<open>
  Claim C5, as the code has it. When \<open>get_color_file\<close> returns a match, it is the match
  of the first directory of \<open>sorted_incoming\<close> that has one, all directories before it
  having been scanned without a match. When the package path is no file, that list is in
  ascending order of the keys (the integer name, or the day of creation): the oldest
  directory comes first, and the directory of the source has no special place. When the
  package path is a file, its directory is the head of the list and the rest is ascending.
\<close>

theorem C5_scan_order:
  assumes "package_paths source_path = Inr (Some (pp, ip))"
    and "get_color_file fs source_path item source = Inr r" and "has_color_file r"
  shows "\<exists>ys p zs. sorted_incoming fs pp ip = ys @ p # zs
           \<and> priority_color_file fs (get_files fs p COLOR_FILE_EXTS) item source = Inr r
           \<and> (\<forall>q \<in> set ys. \<exists>r'. priority_color_file fs (get_files fs q COLOR_FILE_EXTS) item source = Inr r'
                  \<and> \<not> has_color_file r')
           \<and> (\<not> isfile fs pp \<longrightarrow> sorted (map (package_key fs) (sorted_incoming fs pp ip)))
           \<and> (isfile fs pp \<longrightarrow> hd (sorted_incoming fs pp ip) = dirname pp
                 \<and> sorted (map (package_key fs) (tl (sorted_incoming fs pp ip))))"
proof -
  from assms(1,2) have "scan_packages fs item source (sorted_incoming fs pp ip) = Inr r"
    by (simp add: get_color_file_def)
  from scan_packages_first [OF this assms(3)] sorted_incoming_order [of fs pp ip]
  show ?thesis by blast
qed

lemma c5_has: "has_color_file (Some (0, FileGrade c5_cdl, c5_old @ ''/pkg/shot.cc''))"
  by code_simp

lemma c5_not_file: "\<not> isfile c5_fs (c5_new @ ''/pkg'')"
  by code_simp

lemma c5_direct_paths: "package_paths c5_direct = Inr (Some (c5_direct, ''/proj/show/incoming''))"
  by code_simp

lemma c5_direct_get:
  "get_color_file c5_fs_direct c5_direct ''sh010'' ''shot''
     = Inr (Some (0, FileGrade c5_cdl_new, c5_new @ ''/pkg/shot.cc''))"
  by code_simp

lemma c5_direct_has: "has_color_file (Some (0, FileGrade c5_cdl_new, c5_new @ ''/pkg/shot.cc''))"
  by code_simp

lemma c5_direct_file: "isfile c5_fs_direct c5_direct"
  by code_simp

lemma c5_direct_sorted:
  "sorted_incoming c5_fs_direct c5_direct ''/proj/show/incoming'' = [c5_new, c5_old]"
  by code_simp

lemma c5_direct_dirname: "dirname c5_direct = c5_new"
  by code_simp

text \<open>The theorem at a source in a package directory, and at a source that lies directly
  in its dated directory.\<close>

theorem C5_scan_order_witness:
  "sorted (map (package_key c5_fs) [c5_old, c5_new])
   \<and> sorted_incoming c5_fs (c5_new @ ''/pkg'') ''/proj/show/incoming'' = [c5_old, c5_new]
   \<and> hd [c5_new, c5_old] = dirname c5_direct
   \<and> sorted_incoming c5_fs_direct c5_direct ''/proj/show/incoming'' = [c5_new, c5_old]"
proof -
  from C5_scan_order [OF c5_paths c5_get c5_has] c5_not_file
  have "sorted (map (package_key c5_fs)
          (sorted_incoming c5_fs (c5_new @ ''/pkg'') ''/proj/show/incoming''))"
    by blast
  then have a: "sorted (map (package_key c5_fs) [c5_old, c5_new])"
    by (simp only: c5_sorted)
  from C5_scan_order [OF c5_direct_paths c5_direct_get c5_direct_has] c5_direct_file
  have "hd (sorted_incoming c5_fs_direct c5_direct ''/proj/show/incoming'') = dirname c5_direct"
    by blast
  then have b: "hd [c5_new, c5_old] = dirname c5_direct"
    by (simp only: c5_direct_sorted)
  from a b c5_sorted c5_direct_sorted show ?thesis
    by (intro conjI)
qed

text \<open>Claim C5 as it is written fails: the older directory is scanned first, and the
  colour file returned is the one of the older directory, not the one in the package of the
  source.\<close>

theorem C5_counterexample:
  "sorted_incoming c5_fs (c5_new @ ''/pkg'') ''/proj/show/incoming'' = [c5_old, c5_new]
   \<and> winner (get_color_file c5_fs c5_source ''sh010'' ''shot'') = Some (0, c5_old @ ''/pkg/shot.cc'')
   \<and> winner (get_color_file c5_fs c5_source ''sh010'' ''shot'') \<noteq> Some (0, c5_new @ ''/pkg/shot.cc'')"
  by code_simp

section \<open>Ties between candidates\<close>











section \<open>A candidate that fails to parse\<close>

text \<open>
  Claim C7 on the code. Only the EDL branch survives a file that fails: \<open>parse_edl_events\<close>
  returns \<open>False\<close> and the loop goes on. \<open>parse_cdl\<close> is called without a handler, so a
  colour file whose number does not convert, or which does not decode, makes
  \<open>priority_color_file\<close> raise, although the \<open>ccc\<close> file beside it matches with priority 1,
  as the scan without the failing file shows. With an EDL that does not decode in place of
  the failing colour file, the match of the \<open>ccc\<close> file is returned.
\<close>

theorem C7_parse_failure_aborts:
  "priority_color_file c7_fs c7_files ''sh010'' ''shot'' = Inl ValueError
   \<and> priority_color_file c7_fs_binary c7_files ''sh010'' ''shot'' = Inl UnicodeDecodeError
   \<and> winner (priority_color_file c7_fs [''ccc'' \<mapsto> [''/pkg/shot.ccc'']] ''sh010'' ''shot'')
       = Some (1, ''/pkg/shot.ccc'')
   \<and> winner (priority_color_file c7_fs [''ccc'' \<mapsto> [''/pkg/shot.ccc''], ''edl'' \<mapsto> [''/pkg/cut.edl'']]
         ''sh010'' ''shot'') = Some (1, ''/pkg/shot.ccc'')"
  by code_simp

section \<open>The case of the shot name\<close>

text \<open>
  Claim C8 on the code. The source name and the file name are put in lower case before
  they are compared, the shot name is not: the file \<open>shot01.cdl\<close> matches the shot name
  \<open>shot01\<close> with priority 11 and does not match \<open>SHOT01\<close>, while it matches the source
  names \<open>shot01\<close> and \<open>SHOT01\<close> alike.
\<close>

theorem C8_shot_name_case:
  "winner (priority_color_file c8_fs c8_files ''shot01'' ''plate'') = Some (11, ''/pkg/shot01.cdl'')
   \<and> priority_color_file c8_fs c8_files ''SHOT01'' ''plate'' = Inr None
   \<and> winner (priority_color_file c8_fs c8_files ''sh010'' ''shot01'') = Some (3, ''/pkg/shot01.cdl'')
   \<and> winner (priority_color_file c8_fs c8_files ''sh010'' ''SHOT01'') = Some (3, ''/pkg/shot01.cdl'')"
  by code_simp

section \<open>The filter \<open>color_edits_only\<close>\<close>


lemma c9_regex_color:
  "parse_edl_events c9_fs ''/pkg/cut.edl'' True
     = Some \<lparr>events = [], first_entry = 2, last_entry = 2\<rparr>"
  by code_simp










































section \<open>A file that does not decode and a file without edits\<close>

lemma no_edit_unbound:
  assumes "re_search edit_pattern edl_data = None"
  shows "regex_parse_edl_text edl_data coe = Inl UnboundLocalError"
proof -
  from assms have "re_finditer edit_pattern edl_data = []"
    by (simp add: re_finditer_def re_search_def)
  then have "edits_of edl_data = []" by (simp add: edits_of_def)
  with assms show ?thesis by (simp add: regex_parse_edl_text_def)
qed


text \<open>
  Claim C10 on the code. The regex parser reads \<open>edit_value\<close> after its loop, so on a text
  without any edit it raises, and \<open>parse_edl_events\<close> turns every exception of the regex
  parser into \<open>False\<close>: a file that decodes and has no edit gives the same result as a file
  that does not decode. Only when the OTIO adapter itself reads the file is the result for
  no events a dictionary with an empty collection.
\<close>

theorem C10_same_sentinel:
  "parse_edl_events c10_fs ''/pkg/binary.edl'' True = None
   \<and> regex_parse_edl_events c10_fs ''/pkg/notes.edl'' True = Inl UnboundLocalError
   \<and> parse_edl_events c10_fs ''/pkg/notes.edl'' True = None
   \<and> parse_edl_events c10_fs ''/pkg/empty.edl'' True
       = Some \<lparr>events = [], first_entry = 1, last_entry = 0\<rparr>"
  by code_simp

end
